theory Spec2Isabelle
  imports Complex_Main
begin

section \<open>EditFlow: timing tree, animation evaluators and grid resolver\<close>

text \<open>
  A shallow embedding of the Python package \<^verbatim>\<open>editflow\<close>. Python exceptions are
  the left summand of a sum type, and the mutable object graph (components, their
  children lists, effect lists and animation sets) is an explicit store. Times and
  coordinates are real numbers. The timing tree, the grid resolver and the
  multi-keyframe evaluator compute on them exactly; the single-target evaluator
  \<^verbatim>\<open>moveAnim\<close>, whose behaviour one millisecond off its boundaries is in question,
  computes in IEEE 754 binary64, every operation rounded to nearest, ties to even.
\<close>

subsection \<open>Exceptions and Python primitives\<close>

datatype error =
    ValueError
  | TypeError
  | RuntimeError
  | RecursionError
  | IndexError
  | ZeroDivisionError
  | AttributeError
  | OverflowError

text \<open>Python's \<^verbatim>\<open>int(x)\<close> on a float truncates toward zero.\<close>

definition py_int :: "real \<Rightarrow> int" where
  "py_int x = (if 0 \<le> x then \<lfloor>x\<rfloor> else \<lceil>x\<rceil>)"

text \<open>
  Subscripting a list: \<^verbatim>\<open>xs[i]\<close> reads element \<open>i\<close> for \<open>0 \<le> i < len(xs)\<close>,
  element \<open>len(xs) + i\<close> for \<open>-len(xs) \<le> i < 0\<close>, and raises otherwise.
\<close>

definition py_get :: "'a list \<Rightarrow> int \<Rightarrow> error + 'a" where
  "py_get xs i =
     (if 0 \<le> i \<and> i < int (length xs) then Inr (xs ! nat i)
      else if i < 0 \<and> - int (length xs) \<le> i then Inr (xs ! nat (int (length xs) + i))
      else Inl IndexError)"


subsection \<open>Python floats\<close>

text \<open>
  A Python float is an IEEE 754 binary64 number. A real number stands for a finite
  float when it is a fixed point of \<open>fl\<close>. The binade of \<open>x\<close> is the largest exponent
  \<open>e\<close> between -1022 and 1023 with \<open>2\<^sup>e \<le> |x|\<close>, and -1022 (the subnormal range) when
  there is none; floats of that binade are the integer multiples of \<open>2\<^bsup>e - 52\<^esup>\<close>.
\<close>

fun expo_in :: "int list \<Rightarrow> real \<Rightarrow> int" where
  "expo_in [] a = - 1022"
| "expo_in (e # es) a = (if 2 powi e \<le> a then e else expo_in es a)"

definition binades :: "int list" where
  "binades = rev [- 1022..1023]"

definition expo :: "real \<Rightarrow> int" where
  "expo x = expo_in binades \<bar>x\<bar>"

text \<open>Rounding to the nearest integer, a tie going to the even one.\<close>

definition round_even :: "real \<Rightarrow> int" where
  "round_even y =
     (let n = \<lfloor>y\<rfloor>; r = y - real_of_int n
      in if r < 1 / 2 then n else if r > 1 / 2 then n + 1 else if even n then n else n + 1)"

text \<open>
  The float that an arithmetic operation returns for the exact result \<open>x\<close>, as long
  as it is finite: \<open>x\<close> rounded to the nearest multiple of the spacing of its binade.
  Rounding past the largest float gives an infinity instead.
\<close>

definition fl :: "real \<Rightarrow> real" where
  "fl x = (let q = 2 powi (expo x - 52) in real_of_int (round_even (x / q)) * q)"

definition max_double :: real where
  "max_double = (2 - 2 powi (- 52)) * 2 powi 1023"

definition overflows :: "real \<Rightarrow> bool" where
  "overflows x \<longleftrightarrow> \<bar>fl x\<bar> > max_double"

text \<open>True division of two floats.\<close>

definition float_div :: "real \<Rightarrow> real \<Rightarrow> error + real" where
  "float_div a b = (if b = 0 then Inl ZeroDivisionError else Inr (fl (a / b)))"

subsection \<open>misc.py\<close>


text \<open>
  \<^verbatim>\<open>int(interpolate(a, b, weight))\<close> in floats, for finite arguments. The literal
  \<^verbatim>\<open>0.0001\<close> is the float nearest to it. When the difference, the product or the sum
  rounds past the largest float, \<^verbatim>\<open>interpolate\<close> returns an infinity (the weight, not
  being zero, and the finite \<open>a\<close> keep it one), and \<^verbatim>\<open>int\<close> raises
  \<^verbatim>\<open>OverflowError\<close> on it.
\<close>

definition int_interpolate :: "real \<Rightarrow> real \<Rightarrow> real \<Rightarrow> error + int" where
  "int_interpolate a b weight =
     (let weight = (if weight = 0 then fl (weight + fl (1 / 10000)) else weight)
      in if overflows (b - a) \<or> overflows (fl (b - a) * weight)
            \<or> overflows (a + fl (fl (b - a) * weight))
         then Inl OverflowError
         else Inr (py_int (fl (a + fl (fl (b - a) * weight)))))"

subsection \<open>effects.py\<close>

type_synonym position = "real \<times> real"


text \<open>
  The same weight in floats, for an easing function that returns finite floats:
  \<^verbatim>\<open>math.floor\<close> raises \<^verbatim>\<open>OverflowError\<close> on an infinite product, and otherwise
  returns an integer, whose true division by 1000 is correctly rounded.
\<close>

definition float_relWeight :: "(real \<Rightarrow> real) \<Rightarrow> real \<Rightarrow> error + real" where
  "float_relWeight easing_func x =
     (if overflows (easing_func x * 1000) then Inl OverflowError
      else Inr (fl (real_of_int \<lfloor>fl (easing_func x * 1000)\<rfloor> / 1000)))"

text \<open>
  \<^verbatim>\<open>moveAnim(t, from_position, to_position, duration, start_delay, easing_func)\<close>
  on finite floats. The second test \<^verbatim>\<open>t >= start_delay\<close> is the negation of the
  first, so the chain has no fall-through. The difference \<^verbatim>\<open>t - start_delay\<close> is
  rounded before it is compared with the duration; an infinite difference is above
  every finite duration.
\<close>

definition moveAnim ::
  "real \<Rightarrow> position \<Rightarrow> position \<Rightarrow> real \<Rightarrow> real \<Rightarrow> (real \<Rightarrow> real) \<Rightarrow> error + position" where
  "moveAnim t from_position to_position duration start_delay easing_func =
     (if t < start_delay then Inr from_position
      else if overflows (t - start_delay) \<or> fl (t - start_delay) > duration then Inr to_position
      else (case float_div (fl (t - start_delay)) duration of
              Inl e \<Rightarrow> Inl e
            | Inr normalized_t \<Rightarrow>
                (case float_relWeight easing_func normalized_t of
                   Inl e \<Rightarrow> Inl e
                 | Inr relWeight' \<Rightarrow>
                    (case int_interpolate (fst from_position) (fst to_position) relWeight' of
                       Inl e \<Rightarrow> Inl e
                     | Inr x \<Rightarrow>
                        (case int_interpolate (snd from_position) (snd to_position) relWeight' of
                           Inl e \<Rightarrow> Inl e
                         | Inr y \<Rightarrow> Inr (real_of_int x, real_of_int y))))))"


subsection \<open>grid.py\<close>

text \<open>ASCII case folding and \<^verbatim>\<open>strip(" ")\<close>, as applied to the anchor name.\<close>

definition lower_char :: "char \<Rightarrow> char" where
  "lower_char c =
     (case map_of (zip ''ABCDEFGHIJKLMNOPQRSTUVWXYZ'' ''abcdefghijklmnopqrstuvwxyz'') c of
        None \<Rightarrow> c
      | Some d \<Rightarrow> d)"

definition lower :: "string \<Rightarrow> string" where
  "lower s = map lower_char s"

definition strip :: "string \<Rightarrow> string" where
  "strip s = rev (dropWhile (\<lambda>c. c = CHR '' '') (rev (dropWhile (\<lambda>c. c = CHR '' '') s)))"

record GridSystem =
  screen_size :: "real \<times> real"
  column_gap :: real
  row_gap :: real

definition new_GridSystem :: "real \<times> real \<Rightarrow> GridSystem" where
  "new_GridSystem sz =
     \<lparr> screen_size = sz, column_gap = fst sz / 12, row_gap = snd sz / 12 \<rparr>"

text \<open>
  \<^verbatim>\<open>GridSystem.get_coords(clip, pos, span, anchor, offset)\<close>; of the clip only
  its width \<open>w\<close> and height \<open>h\<close> are read, and \<open>span\<close> is unused.
\<close>

definition get_coords ::
  "GridSystem \<Rightarrow> real \<times> real \<Rightarrow> real \<times> real \<Rightarrow> string \<Rightarrow> real \<times> real \<Rightarrow> error + position" where
  "get_coords g clip_wh pos anchor offset =
     (let column_gap = column_gap g; row_gap = row_gap g;
          w = fst clip_wh; h = snd clip_wh;
          offset_anchor = strip (lower anchor);
          row = fst pos; column = snd pos;
          default_x = column * column_gap;
          default_y = row * row_gap;
          offset_x = fst offset; offset_y = snd offset
      in
      if offset_anchor = ''center'' then
        Inr ((default_x + column_gap / 2) - w / 2, (default_y + row_gap / 2) - h / 2)
      else if offset_anchor = ''left'' then
        Inr (default_x - offset_x * (w / 2), (default_y + row_gap / 2) - h / 2)
      else if offset_anchor = ''top'' then
        Inr ((default_x + column_gap / 2) - w / 2, default_y - offset_y * (h / 2))
      else if offset_anchor = ''right'' then
        Inr ((default_x + column_gap) - w + offset_x * (w / 2), (default_y + row_gap / 2) - h / 2)
      else if offset_anchor = ''bottom'' then
        Inr ((default_x + column_gap / 2) - w / 2, default_y + row_gap - h + offset_y * (h / 2))
      else if offset_anchor = ''topleft'' then
        Inr (default_x - offset_x * (w / 2), default_y - offset_y * (h / 2))
      else if offset_anchor = ''topright'' then
        Inr ((default_x + column_gap) - w + offset_x * (w / 2), default_y - offset_y * (h / 2))
      else if offset_anchor = ''bottomleft'' then
        Inr (default_x - offset_x * (w / 2), default_y + row_gap - h + offset_y * (h / 2))
      else if offset_anchor = ''bottomright'' then
        Inr ((default_x + column_gap) - w + offset_x * (w / 2),
             default_y + row_gap - h + offset_y * (h / 2))
      else Inl ValueError)"

text \<open>The nine anchor names \<^verbatim>\<open>get_coords\<close> is declared to take.\<close>

definition valid_anchors :: "string list" where
  "valid_anchors =
     [''center'', ''left'', ''right'', ''top'', ''bottom'',
      ''topleft'', ''topright'', ''bottomleft'', ''bottomright'']"

subsection \<open>External clips\<close>

text \<open>
  The media library (MoviePy 2) is outside the package; of a clip the package reads
  the duration, the size and the audio track, and it stamps position, start, duration,
  effects and layer onto it. A clip is therefore a record of exactly these attributes,
  every clip has a duration, and every \<^verbatim>\<open>with_...\<close> call is a record update.
  The one library call of the package that rejects arguments is \<^verbatim>\<open>subclipped\<close>.
\<close>

type_synonym effect = nat

datatype afx = AudioFadeIn real | AudioFadeOut real

record audio_clip =
  audio_duration :: real
  audio_start :: real
  audio_subclip :: "(real \<times> real) option"
  audio_effects :: "afx list"

text \<open>
  MoviePy's \<^verbatim>\<open>Clip.subclipped(start_time, end_time)\<close> on a clip with a duration
  and with both times given: a negative time counts from the end of the clip, a start
  at or after the end of the clip raises \<^verbatim>\<open>ValueError\<close>, and so does an end more
  than \<open>10\<^sup>-\<^sup>8\<close> after it; the new clip lasts from the start to the end.
\<close>

definition subclipped :: "audio_clip \<Rightarrow> real \<Rightarrow> real \<Rightarrow> error + audio_clip" where
  "subclipped c start_time end_time =
     (let start_time = (if start_time < 0 then audio_duration c + start_time else start_time)
      in if start_time \<ge> audio_duration c then Inl ValueError
         else
           (let end_time = (if end_time < 0 then audio_duration c + end_time else end_time)
            in if end_time - audio_duration c > 1 / 10 ^ 8 then Inl ValueError
               else Inr (c\<lparr> audio_subclip := Some (start_time, end_time),
                             audio_duration := end_time - start_time \<rparr>)))"

datatype posfn =
    PosUnset
  | PosStatic position
  | PosMoveAnim position position real real "real \<Rightarrow> real"
  | PosMoveToMany "position list" real real real "real \<Rightarrow> real"

record video_clip =
  clip_duration :: real
  clip_w :: real
  clip_h :: real
  clip_audio :: "audio_clip option"
  clip_start :: real
  clip_position :: posfn
  clip_effects :: "effect list"
  clip_layer_index :: int

subsection \<open>animations.py\<close>

datatype ('a, 'b) one_or_many = One 'a | Many 'b

text \<open>
  \<^verbatim>\<open>PositionAnimation\<close>: the target is one grid cell with one anchor and one
  offset, or a list of cells with an anchor and an offset that are each either one
  value or a list.
\<close>

datatype pos_target =
    Single "real \<times> real" string "real \<times> real"
  | Multi "(real \<times> real) list" "(string, string list) one_or_many"
      "(real \<times> real, (real \<times> real) list) one_or_many"

record Animation =
  duration :: real
  start_delay :: real
  easing_func :: "real \<Rightarrow> real"

record PositionAnimation = Animation +
  target :: pos_target
  no_grid :: bool
  each :: real

record AnimationSet =
  position :: "PositionAnimation option"
  scale :: "Animation option"
  rotation :: "Animation option"
  opacity :: "Animation option"
  color :: "Animation option"
  custom :: "(string \<times> Animation) list"

definition new_AnimationSet :: AnimationSet where
  "new_AnimationSet =
     \<lparr> position = None, scale = None, rotation = None, opacity = None, color = None,
       custom = [] \<rparr>"

subsection \<open>The object store\<close>

text \<open>
  Python objects are mutable and shared by reference. An object is a record of its
  attributes held at an address; the list objects bound to \<^verbatim>\<open>children\<close> and
  \<^verbatim>\<open>effects\<close> and the \<^verbatim>\<open>AnimationSet\<close> bound to
  \<^verbatim>\<open>animations\<close> live at addresses of their own, so that two objects can hold
  the same list. Attributes a class does not have are present in the record and
  ignored; the operations that would read them raise \<^verbatim>\<open>AttributeError\<close>.
\<close>

type_synonym ref = nat

datatype cls = Component | Tape | Sound | Film | Screen

record composite =
  composite_clips :: "video_clip list"
  composite_audio :: "audio_clip list option"

record obj =
  cls :: cls
  name :: string
  begin' :: real
  children :: ref
  clip :: video_clip
  custom_start :: bool
  custom_position :: bool
  pos :: "real \<times> real"
  offset :: "real \<times> real"
  anchor :: string
  span :: "real \<times> real"
  effects :: ref
  animations :: ref
  sound_clip :: audio_clip
  adjust_to_clip :: bool
  start_offset :: "real option"
  fadein :: "real option"
  fadeout :: "real option"
  fps :: nat
  BACKGROUND :: video_clip
  grid :: GridSystem
  bg_music :: "ref option"
  total_duration :: "real option"
  end' :: "composite option"

record heap =
  objs :: "ref \<Rightarrow> obj"
  next_obj :: ref
  lists :: "ref \<Rightarrow> ref list"
  next_list :: ref
  effect_lists :: "ref \<Rightarrow> effect list"
  next_effect_list :: ref
  animation_sets :: "ref \<Rightarrow> AnimationSet"
  next_animation_set :: ref

definition blank_audio :: audio_clip where
  "blank_audio =
     \<lparr> audio_duration = 0, audio_start = 0, audio_subclip = None, audio_effects = [] \<rparr>"

definition blank_clip :: video_clip where
  "blank_clip =
     \<lparr> clip_duration = 0, clip_w = 0, clip_h = 0, clip_audio = None, clip_start = 0,
       clip_position = PosUnset, clip_effects = [], clip_layer_index = 0 \<rparr>"

definition blank_obj :: obj where
  "blank_obj =
     \<lparr> cls = Component, name = [], begin' = 0, children = 0, clip = blank_clip,
       custom_start = False, custom_position = False, pos = (0, 0), offset = (0, 0),
       anchor = [], span = (0, 0), effects = 0, animations = 0, sound_clip = blank_audio,
       adjust_to_clip = False, start_offset = None, fadein = None, fadeout = None, fps = 0,
       BACKGROUND = blank_clip, grid = new_GridSystem (0, 0), bg_music = None,
       total_duration = None, end' = None \<rparr>"

definition empty_heap :: heap where
  "empty_heap =
     \<lparr> objs = (\<lambda>_. blank_obj), next_obj = 0, lists = (\<lambda>_. []), next_list = 0,
       effect_lists = (\<lambda>_. []), next_effect_list = 0,
       animation_sets = (\<lambda>_. new_AnimationSet), next_animation_set = 0 \<rparr>"

text \<open>Allocation of a fresh list, effect list, animation set and object.\<close>

definition alloc_list :: "ref list \<Rightarrow> heap \<Rightarrow> ref \<times> heap" where
  "alloc_list xs h =
     (next_list h, h\<lparr> lists := (lists h)(next_list h := xs), next_list := Suc (next_list h) \<rparr>)"

definition alloc_effect_list :: "effect list \<Rightarrow> heap \<Rightarrow> ref \<times> heap" where
  "alloc_effect_list xs h =
     (next_effect_list h,
      h\<lparr> effect_lists := (effect_lists h)(next_effect_list h := xs),
         next_effect_list := Suc (next_effect_list h) \<rparr>)"

definition alloc_animation_set :: "AnimationSet \<Rightarrow> heap \<Rightarrow> ref \<times> heap" where
  "alloc_animation_set a h =
     (next_animation_set h,
      h\<lparr> animation_sets := (animation_sets h)(next_animation_set h := a),
         next_animation_set := Suc (next_animation_set h) \<rparr>)"

definition alloc_obj :: "obj \<Rightarrow> heap \<Rightarrow> ref \<times> heap" where
  "alloc_obj ob h =
     (next_obj h, h\<lparr> objs := (objs h)(next_obj h := ob), next_obj := Suc (next_obj h) \<rparr>)"

subsection \<open>component.py\<close>

text \<open>\<^verbatim>\<open>Component.__init__\<close>: a name, \<^verbatim>\<open>begin = 0.0\<close> and a new empty list.\<close>

definition new_Component :: "string \<Rightarrow> heap \<Rightarrow> ref \<times> heap" where
  "new_Component nm h =
     (let (l, h1) = alloc_list [] h
      in alloc_obj (blank_obj\<lparr> cls := Component, name := nm, begin' := 0, children := l \<rparr>) h1)"

text \<open>
  \<^verbatim>\<open>Component.copy\<close> is \<^verbatim>\<open>copy.copy(self)\<close>: a new object of the same class
  whose attributes are bound to the same values, so the copy holds the addresses of
  the original's lists and animation set.
\<close>

definition copy :: "ref \<Rightarrow> heap \<Rightarrow> ref \<times> heap" where
  "copy r h = alloc_obj (objs h r) h"

text \<open>Attribute assignment and \<^verbatim>\<open>list.append\<close>.\<close>

definition set_begin :: "ref \<Rightarrow> real \<Rightarrow> heap \<Rightarrow> heap" where
  "set_begin r v h = h\<lparr> objs := (objs h)(r := (objs h r)\<lparr> begin' := v \<rparr>) \<rparr>"

definition list_append :: "ref \<Rightarrow> ref \<Rightarrow> heap \<Rightarrow> heap" where
  "list_append l x h = h\<lparr> lists := (lists h)(l := lists h l @ [x]) \<rparr>"

text \<open>The first error of a list of results, or all the values.\<close>

fun collect :: "(error + 'a) list \<Rightarrow> error + 'a list" where
  "collect [] = Inr []"
| "collect (Inl e # rs) = Inl e"
| "collect (Inr v # rs) = (case collect rs of Inl e \<Rightarrow> Inl e | Inr vs \<Rightarrow> Inr (v # vs))"

text \<open>Python's \<^verbatim>\<open>max(xs, default=d)\<close>.\<close>

fun py_max :: "real list \<Rightarrow> real \<Rightarrow> real" where
  "py_max [] d = d"
| "py_max (x # xs) d = fold max xs x"

text \<open>
  The property \<^verbatim>\<open>finish\<close> of the three classes that define it. The first
  argument is the property as read on a child, \<^verbatim>\<open>child.finish\<close>.
\<close>

definition Component_finish :: "(ref \<Rightarrow> error + real) \<Rightarrow> heap \<Rightarrow> ref \<Rightarrow> error + real" where
  "Component_finish child_finish h r =
     (let self = objs h r
      in if lists h (children self) = [] then Inr (begin' self)
         else (case collect (map child_finish (lists h (children self))) of
                 Inl e \<Rightarrow> Inl e
               | Inr fs \<Rightarrow> Inr (py_max fs (begin' self))))"

definition Tape_finish :: "(ref \<Rightarrow> error + real) \<Rightarrow> heap \<Rightarrow> ref \<Rightarrow> error + real" where
  "Tape_finish child_finish h r =
     (let self = objs h r
      in case Component_finish child_finish h r of
           Inl e \<Rightarrow> Inl e
         | Inr child_finish \<Rightarrow>
             (let clip_finish = begin' self + clip_duration (clip self)
              in Inr (max child_finish clip_finish)))"

definition Sound_finish :: "heap \<Rightarrow> ref \<Rightarrow> error + real" where
  "Sound_finish h r =
     (let self = objs h r in Inr (begin' self + audio_duration (sound_clip self)))"

text \<open>
  Reading \<^verbatim>\<open>finish\<close> dispatches on the class: \<^verbatim>\<open>Sound\<close> and
  \<^verbatim>\<open>Tape\<close> override it, \<^verbatim>\<open>Film\<close> and \<^verbatim>\<open>Screen\<close> inherit
  \<^verbatim>\<open>Component\<close>'s. The recursion follows the children lists through the store
  and need not end on a cyclic store; the first argument bounds the depth of the
  recursion, as the interpreter's recursion limit does, and
  \<^verbatim>\<open>RecursionError\<close> is raised when it is used up.
\<close>

fun finish :: "nat \<Rightarrow> heap \<Rightarrow> ref \<Rightarrow> error + real" where
  "finish 0 h r = Inl RecursionError"
| "finish (Suc n) h r =
     (case cls (objs h r) of
        Sound \<Rightarrow> Sound_finish h r
      | Tape \<Rightarrow> Tape_finish (finish n h) h r
      | _ \<Rightarrow> Component_finish (finish n h) h r)"

text \<open>
  The property \<^verbatim>\<open>lifetime\<close>: the clip's duration for \<^verbatim>\<open>Sound\<close> and
  \<^verbatim>\<open>Tape\<close>, \<^verbatim>\<open>finish - begin\<close> for the other classes.
\<close>

definition lifetime :: "nat \<Rightarrow> heap \<Rightarrow> ref \<Rightarrow> error + real" where
  "lifetime n h r =
     (let self = objs h r
      in case cls self of
           Sound \<Rightarrow> Inr (audio_duration (sound_clip self))
         | Tape \<Rightarrow> Inr (clip_duration (clip self))
         | _ \<Rightarrow> (case finish n h r of Inl e \<Rightarrow> Inl e | Inr f \<Rightarrow> Inr (f - begin' self)))"

text \<open>
  \<^verbatim>\<open>Component.add_component(component, method, start)\<close>. The result is the
  exception raised or \<^verbatim>\<open>self\<close>, together with the store the call leaves behind.
\<close>

definition add_component ::
  "nat \<Rightarrow> ref \<Rightarrow> ref \<Rightarrow> string \<Rightarrow> real \<Rightarrow> heap \<Rightarrow> (error + ref) \<times> heap" where
  "add_component n self component method start h =
     (let (component_copy, h1) = copy component h;
          self_children = children (objs h1 self)
      in
      if method = ''compose'' then
        (Inr self,
         list_append self_children component_copy
           (set_begin component_copy (begin' (objs h1 self) + start) h1))
      else if method = ''concat'' then
        (if lists h1 self_children = [] then
           (Inr self, list_append self_children component_copy (set_begin component_copy start h1))
         else
           (case finish n h1 (last (lists h1 self_children)) of
              Inl e \<Rightarrow> (Inl e, h1)
            | Inr f \<Rightarrow>
                (Inr self,
                 list_append self_children component_copy
                   (set_begin component_copy (f + start) h1))))
      else if method = ''last'' then
        (if lists h1 self_children = [] then
           (Inr self, list_append self_children component_copy (set_begin component_copy start h1))
         else
           (Inr self,
            list_append self_children component_copy
              (set_begin component_copy
                 (begin' (objs h1 (last (lists h1 self_children))) + start) h1)))
      else (Inl ValueError, h1))"

subsection \<open>sound.py\<close>

definition new_Sound :: "audio_clip \<Rightarrow> string \<Rightarrow> bool \<Rightarrow> heap \<Rightarrow> ref \<times> heap" where
  "new_Sound c nm adjust h =
     (let (l, h1) = alloc_list [] h
      in alloc_obj
           (blank_obj\<lparr> cls := Sound, name := nm, begin' := 0, children := l, sound_clip := c,
              adjust_to_clip := adjust, start_offset := None, fadein := None, fadeout := None \<rparr>)
           h1)"

definition with_fade :: "ref \<Rightarrow> real option \<Rightarrow> real option \<Rightarrow> heap \<Rightarrow> (error + ref) \<times> heap" where
  "with_fade self fi fo h =
     (if cls (objs h self) \<noteq> Sound then (Inl AttributeError, h)
      else (Inr self, h\<lparr> objs := (objs h)(self := (objs h self)\<lparr> fadein := fi, fadeout := fo \<rparr>) \<rparr>))"

definition with_start_offset :: "ref \<Rightarrow> real \<Rightarrow> heap \<Rightarrow> (error + ref) \<times> heap" where
  "with_start_offset self off h =
     (if cls (objs h self) \<noteq> Sound then (Inl AttributeError, h)
      else (Inr self, h\<lparr> objs := (objs h)(self := (objs h self)\<lparr> start_offset := Some off \<rparr>) \<rparr>))"

subsection \<open>tape.py\<close>

definition new_Tape :: "video_clip \<Rightarrow> bool \<Rightarrow> bool \<Rightarrow> string \<Rightarrow> heap \<Rightarrow> ref \<times> heap" where
  "new_Tape c cstart cposition nm h =
     (let (l, h1) = alloc_list [] h;
          (e, h2) = alloc_effect_list [] h1;
          (a, h3) = alloc_animation_set new_AnimationSet h2
      in alloc_obj
           (blank_obj\<lparr> cls := Tape, name := nm, begin' := 0, children := l, clip := c,
              custom_start := cstart, custom_position := cposition, pos := (0, 0),
              offset := (0, 0), anchor := ''topleft'', span := (1, 1), effects := e,
              animations := a \<rparr>)
           h3)"

text \<open>\<^verbatim>\<open>Tape.add_sound\<close> forwards to \<^verbatim>\<open>add_component\<close>.\<close>

definition add_sound ::
  "nat \<Rightarrow> ref \<Rightarrow> ref \<Rightarrow> string \<Rightarrow> real \<Rightarrow> heap \<Rightarrow> (error + ref) \<times> heap" where
  "add_sound n self sound method start h =
     (if cls (objs h self) \<noteq> Tape then (Inl AttributeError, h)
      else add_component n self sound method start h)"

text \<open>
  \<^verbatim>\<open>Tape.with_position_animation\<close> assigns the \<^verbatim>\<open>position\<close> slot of the
  animation set the tape holds, in place.
\<close>

definition with_position_animation ::
  "ref \<Rightarrow> PositionAnimation \<Rightarrow> heap \<Rightarrow> (error + ref) \<times> heap" where
  "with_position_animation self pa h =
     (if cls (objs h self) \<noteq> Tape then (Inl AttributeError, h)
      else
        (let a = animations (objs h self)
         in (Inr self,
             h\<lparr> animation_sets :=
                  (animation_sets h)(a := (animation_sets h a)\<lparr> position := Some pa \<rparr>) \<rparr>)))"

text \<open>
  What a client can do to a tape it holds: bind \<^verbatim>\<open>animations\<close> to another
  animation set, and append to the lists bound to \<^verbatim>\<open>children\<close> and
  \<^verbatim>\<open>effects\<close>.
\<close>

definition set_animations :: "ref \<Rightarrow> ref \<Rightarrow> heap \<Rightarrow> heap" where
  "set_animations r a h = h\<lparr> objs := (objs h)(r := (objs h r)\<lparr> animations := a \<rparr>) \<rparr>"

definition children_append :: "ref \<Rightarrow> ref \<Rightarrow> heap \<Rightarrow> heap" where
  "children_append r x h = list_append (children (objs h r)) x h"

definition effects_append :: "ref \<Rightarrow> effect \<Rightarrow> heap \<Rightarrow> heap" where
  "effects_append r x h =
     (let e = effects (objs h r)
      in h\<lparr> effect_lists := (effect_lists h)(e := effect_lists h e @ [x]) \<rparr>)"

subsection \<open>film.py\<close>

definition new_Film :: "string \<Rightarrow> heap \<Rightarrow> ref \<times> heap" where
  "new_Film nm h =
     (let (l, h1) = alloc_list [] h
      in alloc_obj (blank_obj\<lparr> cls := Film, name := nm, begin' := 0, children := l \<rparr>) h1)"

subsection \<open>screen.py\<close>

text \<open>
  \<^verbatim>\<open>Screen.__init__\<close>: a one-second background clip of the screen's size, started
  at 0, the grid of that size, no background music and no composition yet.
\<close>

definition new_Screen :: "real \<times> real \<Rightarrow> nat \<Rightarrow> string \<Rightarrow> heap \<Rightarrow> ref \<times> heap" where
  "new_Screen sz rate nm h =
     (let (l, h1) = alloc_list [] h
      in alloc_obj
           (blank_obj\<lparr> cls := Screen, name := nm, begin' := 0, children := l, fps := rate,
              BACKGROUND := blank_clip\<lparr> clip_duration := 1, clip_w := fst sz, clip_h := snd sz,
                                       clip_start := 0 \<rparr>,
              grid := new_GridSystem sz, bg_music := None, end' := None \<rparr>)
           h1)"

definition add_film ::
  "nat \<Rightarrow> ref \<Rightarrow> ref \<Rightarrow> string \<Rightarrow> real \<Rightarrow> heap \<Rightarrow> (error + ref) \<times> heap" where
  "add_film n self film method start h =
     (if cls (objs h self) \<noteq> Screen then (Inl AttributeError, h)
      else if length (lists h (children (objs h film))) = 0 then (Inl ValueError, h)
      else add_component n self film method start h)"

definition add_bg_music ::
  "ref \<Rightarrow> ref \<Rightarrow> real \<Rightarrow> real \<Rightarrow> real \<Rightarrow> heap \<Rightarrow> (error + ref) \<times> heap" where
  "add_bg_music self sound fi fo off h =
     (if cls (objs h self) \<noteq> Screen then (Inl AttributeError, h) else
      let (copysound, h1) = copy sound h
      in case with_fade copysound (Some fi) (Some fo) h1 of
           (Inl e, h2) \<Rightarrow> (Inl e, h2)
         | (Inr _, h2) \<Rightarrow>
             (case with_start_offset copysound off h2 of
                (Inl e, h3) \<Rightarrow> (Inl e, h3)
              | (Inr _, h3) \<Rightarrow>
                  (Inr self,
                   h3\<lparr> objs := (objs h3)(self := (objs h3 self)\<lparr> bg_music := Some copysound \<rparr>) \<rparr>)))"

text \<open>
  The position of one tape's clip in \<^verbatim>\<open>compose\<close>: a single target gives a
  \<^verbatim>\<open>moveAnim\<close> closure between two resolved grid cells, a list of targets gives
  a \<^verbatim>\<open>moveToMany\<close> closure over the resolved cells (or the raw positions under
  \<^verbatim>\<open>no_grid\<close>).
\<close>

definition pick :: "('a, 'a list) one_or_many \<Rightarrow> nat \<Rightarrow> error + 'a" where
  "pick v idx = (case v of One a \<Rightarrow> Inr a | Many as \<Rightarrow> py_get as (int idx))"

definition animated_position ::
  "GridSystem \<Rightarrow> obj \<Rightarrow> PositionAnimation \<Rightarrow> error + posfn" where
  "animated_position g tape position_anim =
     (let wh = (clip_w (clip tape), clip_h (clip tape))
      in case target position_anim of
           Single p a off \<Rightarrow>
             (case get_coords g wh (pos tape) (anchor tape) (offset tape) of
                Inl e \<Rightarrow> Inl e
              | Inr from_coord \<Rightarrow>
                  (case get_coords g wh p a off of
                     Inl e \<Rightarrow> Inl e
                   | Inr to_coord \<Rightarrow>
                       Inr (PosMoveAnim from_coord to_coord (duration position_anim)
                              (start_delay position_anim) (easing_func position_anim))))
         | Multi ps a off \<Rightarrow>
             (case (if no_grid position_anim then Inr ps
                    else collect
                           (map (\<lambda>(idx, p).
                                   case pick a idx of
                                     Inl e \<Rightarrow> Inl e
                                   | Inr ai \<Rightarrow>
                                       (case pick off idx of
                                          Inl e \<Rightarrow> Inl e
                                        | Inr oi \<Rightarrow> get_coords g wh p ai oi))
                              (enumerate 0 ps))) of
                Inl e \<Rightarrow> Inl e
              | Inr positions \<Rightarrow>
                  Inr (PosMoveToMany positions (each position_anim) (duration position_anim)
                         (start_delay position_anim) (easing_func position_anim))))"

text \<open>
  The body of the loop over the sounds attached to a tape: the audio clip started at
  \<^verbatim>\<open>tape.begin + sound.begin\<close>, cut to the tape's lifetime when
  \<^verbatim>\<open>adjust_to_clip\<close> is set.
\<close>

definition compose_sound :: "heap \<Rightarrow> obj \<Rightarrow> ref \<Rightarrow> error + audio_clip" where
  "compose_sound h tape s =
     (let sound = objs h s
      in if cls sound \<noteq> Sound then Inl AttributeError
         else
           (let sound_clip = (sound_clip sound)\<lparr> audio_start := begin' tape + begin' sound \<rparr>
            in Inr (if adjust_to_clip sound
                    then sound_clip\<lparr> audio_duration := clip_duration (clip tape) \<rparr>
                    else sound_clip)))"

text \<open>The body of the loop over the tapes of a film: the placed clip and its audio.\<close>

definition compose_tape :: "heap \<Rightarrow> GridSystem \<Rightarrow> ref \<Rightarrow> error + video_clip \<times> audio_clip list" where
  "compose_tape h g t =
     (let tape = objs h t
      in if cls tape \<noteq> Tape then Inl AttributeError
         else
           (let aset = animation_sets h (animations tape);
                eff = effect_lists h (effects tape)
            in case (case position aset of
                       Some position_anim \<Rightarrow> animated_position g tape position_anim
                     | None \<Rightarrow>
                         (if \<not> custom_position tape
                          then (case get_coords g (clip_w (clip tape), clip_h (clip tape))
                                       (pos tape) (anchor tape) (offset tape) of
                                  Inl e \<Rightarrow> Inl e
                                | Inr coord \<Rightarrow> Inr (PosStatic coord))
                          else Inr (clip_position (clip tape)))) of
                 Inl e \<Rightarrow> Inl e
               | Inr p \<Rightarrow>
                   (let c1 = (clip tape)\<lparr> clip_position := p \<rparr>;
                        c2 = (if eff \<noteq> [] then c1\<lparr> clip_effects := eff \<rparr> else c1);
                        c3 = (if \<not> custom_start tape then c2\<lparr> clip_start := begin' tape \<rparr> else c2)
                    in case collect (map (compose_sound h tape) (lists h (children tape))) of
                         Inl e \<Rightarrow> Inl e
                       | Inr sounds \<Rightarrow>
                           Inr (c3,
                                sounds @
                                (case clip_audio (clip tape) of
                                   None \<Rightarrow> []
                                 | Some videoaudio \<Rightarrow>
                                     [videoaudio\<lparr> audio_start := begin' tape \<rparr>])))))"

definition compose_film ::
  "heap \<Rightarrow> GridSystem \<Rightarrow> ref \<Rightarrow> error + (video_clip \<times> audio_clip list) list" where
  "compose_film h g film = collect (map (compose_tape h g) (lists h (children (objs h film))))"

text \<open>
  The background music of \<^verbatim>\<open>compose\<close>: the source cut from the start offset
  over the total duration, started at 0, with the fades that are set and non-zero.
  An unset start offset makes the addition raise \<^verbatim>\<open>TypeError\<close>, and a cut that
  does not lie within the source makes \<^verbatim>\<open>subclipped\<close> raise \<^verbatim>\<open>ValueError\<close>.
\<close>

definition truthy :: "real option \<Rightarrow> bool" where
  "truthy v = (case v of None \<Rightarrow> False | Some x \<Rightarrow> x \<noteq> 0)"

definition compose_bg_music :: "obj \<Rightarrow> real \<Rightarrow> error + audio_clip" where
  "compose_bg_music music total_t =
     (case start_offset music of
        None \<Rightarrow> Inl TypeError
      | Some off \<Rightarrow>
          (case subclipped (sound_clip music) off (total_t + off) of
             Inl e \<Rightarrow> Inl e
           | Inr part \<Rightarrow>
               (let bg_clip = part\<lparr> audio_start := 0 \<rparr>;
                    fx = (if truthy (fadein music) then [AudioFadeIn (the (fadein music))] else []) @
                         (if truthy (fadeout music) then [AudioFadeOut (the (fadeout music))] else [])
                in Inr (if truthy (fadein music) \<or> truthy (fadeout music)
                        then bg_clip\<lparr> audio_effects := fx \<rparr> else bg_clip))))"

definition set_end :: "ref \<Rightarrow> composite \<Rightarrow> heap \<Rightarrow> heap" where
  "set_end r c h = h\<lparr> objs := (objs h)(r := (objs h r)\<lparr> end' := Some c \<rparr>) \<rparr>"

text \<open>
  \<^verbatim>\<open>Screen.compose\<close>. The composition is bound to \<^verbatim>\<open>_end\<close> once the loop
  over the films is through, before the background music is cut, and bound again
  with the audio attached when there is any. An exception raised by the background
  music leaves the first binding in place.
\<close>

definition compose :: "nat \<Rightarrow> ref \<Rightarrow> heap \<Rightarrow> (error + ref) \<times> heap" where
  "compose n self h =
     (if cls (objs h self) \<noteq> Screen then (Inl AttributeError, h)
      else if length (lists h (children (objs h self))) = 0 then (Inl ValueError, h)
      else
        (case finish n h self of
           Inl e \<Rightarrow> (Inl e, h)
         | Inr total_t \<Rightarrow>
             (let h1 = h\<lparr> objs := (objs h)(self := (objs h self)\<lparr> total_duration := Some total_t \<rparr>) \<rparr>;
                  screen = objs h1 self;
                  background = (BACKGROUND screen)\<lparr> clip_duration := total_t \<rparr>
              in case collect (map (compose_film h1 (grid screen)) (lists h1 (children screen))) of
                   Inl e \<Rightarrow> (Inl e, h1)
                 | Inr per_film \<Rightarrow>
                     (let composelist = background # map fst (concat per_film);
                          audiocomposelist = concat (map snd (concat per_film));
                          end0 = \<lparr> composite_clips = composelist, composite_audio = None \<rparr>;
                          h2 = set_end self end0 h1
                      in case (case bg_music screen of
                                 None \<Rightarrow> Inr audiocomposelist
                               | Some m \<Rightarrow>
                                   (case compose_bg_music (objs h2 m) total_t of
                                      Inl e \<Rightarrow> Inl e
                                    | Inr bg_clip \<Rightarrow> Inr (audiocomposelist @ [bg_clip]))) of
                           Inl e \<Rightarrow> (Inl e, h2)
                         | Inr audios \<Rightarrow>
                             (if audios \<noteq> []
                              then (Inr self, set_end self (end0\<lparr> composite_audio := Some audios \<rparr>) h2)
                              else (Inr self, h2))))))"

text \<open>
  \<^verbatim>\<open>Screen._ensure_ready\<close> and the four queries guarded by it. What the media
  library then does with the composition is outside the package; a query that passes
  the guard yields the composition it hands over.
\<close>

definition ensure_ready :: "ref \<Rightarrow> heap \<Rightarrow> error + bool" where
  "ensure_ready self h = (if end' (objs h self) = None then Inl RuntimeError else Inr True)"

datatype query = Render | Get_end_video | Show | Preview

datatype answer = Written composite | Video composite | Shown composite | Previewed composite

definition run_query :: "query \<Rightarrow> ref \<Rightarrow> heap \<Rightarrow> error + answer" where
  "run_query q self h =
     (case ensure_ready self h of
        Inl e \<Rightarrow> Inl e
      | Inr _ \<Rightarrow>
          (let c = the (end' (objs h self))
           in Inr (case q of
                     Render \<Rightarrow> Written c
                   | Get_end_video \<Rightarrow> Video c
                   | Show \<Rightarrow> Shown c
                   | Preview \<Rightarrow> Previewed c)))"

subsection \<open>Client programs\<close>

text \<open>
  A store is well formed when every address held in a children list is allocated.
\<close>

definition wf_heap :: "heap \<Rightarrow> bool" where
  "wf_heap h \<longleftrightarrow> (\<forall>l. \<forall>r \<in> set (lists h l). r < next_obj h)"


text \<open>
  The calls a client can make on the objects of a store: the constructors, the
  methods of the package, and appends to the lists it can reach. A client that
  catches an exception goes on in the store the failed call left behind.
\<close>

datatype action =
    New_Component string
  | New_Film string
  | New_Tape video_clip bool bool string
  | New_Sound audio_clip string bool
  | New_Screen "real \<times> real" nat string
  | Add_component ref ref string real
  | Add_sound ref ref string real
  | Add_film ref ref string real
  | Add_bg_music ref ref real real real
  | With_fade ref "real option" "real option"
  | With_start_offset ref real
  | With_position_animation ref PositionAnimation
  | Set_animations ref ref
  | Children_append ref ref
  | Effects_append ref effect
  | Compose ref

fun perform :: "nat \<Rightarrow> action \<Rightarrow> heap \<Rightarrow> (error + ref) \<times> heap" where
  "perform n (New_Component nm) h = (let (r, h') = new_Component nm h in (Inr r, h'))"
| "perform n (New_Film nm) h = (let (r, h') = new_Film nm h in (Inr r, h'))"
| "perform n (New_Tape c cs cp nm) h = (let (r, h') = new_Tape c cs cp nm h in (Inr r, h'))"
| "perform n (New_Sound c nm a) h = (let (r, h') = new_Sound c nm a h in (Inr r, h'))"
| "perform n (New_Screen sz rate nm) h = (let (r, h') = new_Screen sz rate nm h in (Inr r, h'))"
| "perform n (Add_component p c m s) h = add_component n p c m s h"
| "perform n (Add_sound p c m s) h = add_sound n p c m s h"
| "perform n (Add_film p c m s) h = add_film n p c m s h"
| "perform n (Add_bg_music p c fi fo off) h = add_bg_music p c fi fo off h"
| "perform n (With_fade r fi fo) h = with_fade r fi fo h"
| "perform n (With_start_offset r off) h = with_start_offset r off h"
| "perform n (With_position_animation r pa) h = with_position_animation r pa h"
| "perform n (Set_animations r a) h = (Inr r, set_animations r a h)"
| "perform n (Children_append r x) h = (Inr r, children_append r x h)"
| "perform n (Effects_append r x) h = (Inr r, effects_append r x h)"
| "perform n (Compose r) h = compose n r h"

fun run :: "nat \<Rightarrow> action list \<Rightarrow> heap \<Rightarrow> heap" where
  "run n [] h = h"
| "run n (a # as) h = run n as (snd (perform n a h))"

text \<open>
  The store a successful insertion of a copy of \<open>c\<close> under \<open>p\<close> leaves behind, the
  copy's \<^verbatim>\<open>begin\<close> being \<open>b\<close>.
\<close>

definition inserted :: "heap \<Rightarrow> ref \<Rightarrow> ref \<Rightarrow> real \<Rightarrow> heap" where
  "inserted h p c b =
     h\<lparr> objs := (objs h)(next_obj h := (objs h c)\<lparr> begin' := b \<rparr>),
        next_obj := Suc (next_obj h),
        lists := (lists h)(children (objs h p) := lists h (children (objs h p)) @ [next_obj h]) \<rparr>"


subsection \<open>Example stores\<close>

text \<open>
  A video clip of 100 by 100 pixels and an audio clip, of a given duration.
\<close>

definition clip_of :: "real \<Rightarrow> video_clip" where
  "clip_of d = blank_clip\<lparr> clip_duration := d, clip_w := 100, clip_h := 100 \<rparr>"

definition audio_of :: "real \<Rightarrow> audio_clip" where
  "audio_of d = blank_audio\<lparr> audio_duration := d \<rparr>"

text \<open>
  A sound of 2 seconds that holds, from second 4 on, a copy of a sound of 9 seconds.
\<close>

definition sound_store :: heap where
  "sound_store =
     run 3 [New_Sound (audio_of 2) ''a'' False,
            New_Sound (audio_of 9) ''b'' False,
            Add_component 0 1 ''compose'' 4] empty_heap"

text \<open>
  A tape of 2 seconds carrying a copy of a sound of 5 seconds, a tape of 1 second and an empty film; the objects are 0 (the first tape), 1 (the sound), 2 (its copy under the tape), 3 (the second tape) and 4 (the film).
\<close>

definition film_store :: heap where
  "film_store =
     run 3 [New_Tape (clip_of 2) False False ''t1'',
            New_Sound (audio_of 5) ''s'' False,
            Add_sound 0 1 ''compose'' 0,
            New_Tape (clip_of 1) False False ''t2'',
            New_Film ''film''] empty_heap"



text \<open>
  The film after the first tape is inserted under \<^verbatim>\<open>compose\<close>, and then the second tape under \<^verbatim>\<open>concat\<close> with gap 1.
\<close>

definition copy_store :: heap where
  "copy_store = snd (add_component 3 4 0 ''compose'' 0 film_store)"

definition placed_store :: heap where
  "placed_store = snd (add_component 3 4 3 ''concat'' 1 copy_store)"

text \<open>
  A new screen beside the film (object 5). The client then puts the first tape
  into the film and the film onto the screen, and sets the sound of 5 seconds as
  background music from second 10 on.
\<close>

definition screen_store :: heap where
  "screen_store = snd (new_Screen (1200, 1200) 24 ''screen'' film_store)"

definition music_program :: "action list" where
  "music_program =
     [Add_component 4 0 ''compose'' 0,
      Add_film 5 4 ''compose'' 0,
      Add_bg_music 5 1 0 0 10]"

definition music_store :: heap where
  "music_store = run 4 music_program screen_store"

text \<open>The store that \<^verbatim>\<open>compose()\<close> on that screen leaves behind.\<close>

definition failed_store :: heap where
  "failed_store = snd (compose 4 5 music_store)"

text \<open>
  The second tape inserted with start value 1 under each policy, into the film that
  holds the first tape and into the empty film.
\<close>

definition compose_placed_store :: heap where
  "compose_placed_store = snd (add_component 3 4 3 ''compose'' 1 copy_store)"

definition last_placed_store :: heap where
  "last_placed_store = snd (add_component 3 4 3 ''last'' 1 copy_store)"

definition first_concat_store :: heap where
  "first_concat_store = snd (add_component 3 4 3 ''concat'' 1 film_store)"

definition first_last_store :: heap where
  "first_last_store = snd (add_component 3 4 3 ''last'' 1 film_store)"

section \<open>Verification\<close>

subsection \<open>Python primitives\<close>






subsection \<open>Rounding to binary64\<close>

lemma expo_in_cases: "2 powi (expo_in es a) \<le> a \<or> expo_in es a = - 1022"
  by (induction es) auto

lemma expo_in_rev_upto:
  assumes "l \<le> e" "e \<le> u" "2 powi e \<le> a" "a < 2 powi (e + 1)"
  shows "expo_in (rev [l..u]) a = e"
  using assms(2)
proof (induction u rule: int_ge_induct)
  case base
  have "[l..e] = [l..e - 1] @ [e]" using assms(1) by (simp add: upto_rec2)
  with assms(3) show ?case by simp
next
  case (step u)
  have u: "[l..u + 1] = [l..u] @ [u + 1]" using assms(1) step.hyps by (simp add: upto_rec2)
  have "2 powi (e + 1) \<le> (2::real) powi (u + 1)"
    using step.hyps by (intro power_int_increasing) auto
  with assms(4) have "\<not> 2 powi (u + 1) \<le> a" by linarith
  with step.IH u show ?case by simp
qed

lemma expo_eq:
  "- 1022 \<le> e \<Longrightarrow> e \<le> 1023 \<Longrightarrow> 2 powi e \<le> \<bar>x\<bar> \<Longrightarrow> \<bar>x\<bar> < 2 powi (e + 1) \<Longrightarrow> expo x = e"
  unfolding expo_def binades_def by (rule expo_in_rev_upto)

lemma expo_le:
  assumes "\<bar>x\<bar> \<le> 2 powi k" "- 1022 \<le> k"
  shows "expo x \<le> k"
proof -
  from expo_in_cases [of binades "\<bar>x\<bar>"]
  have "2 powi (expo x) \<le> \<bar>x\<bar> \<or> expo x = - 1022" by (simp add: expo_def)
  then show ?thesis
  proof
    assume "2 powi (expo x) \<le> \<bar>x\<bar>"
    with assms(1) have le: "(2::real) powi (expo x) \<le> 2 powi k" by linarith
    show ?thesis
    proof (rule ccontr)
      assume "\<not> expo x \<le> k"
      then have "k < expo x" by simp
      then have "(2::real) powi k < 2 powi (expo x)"
        by (intro power_int_strict_increasing) auto
      with le show False by simp
    qed
  next
    assume "expo x = - 1022"
    with assms(2) show ?thesis by simp
  qed
qed

lemma round_even_error: "\<bar>real_of_int (round_even y) - y\<bar> \<le> 1 / 2"
  unfolding round_even_def Let_def by (auto simp: abs_le_iff)

lemma fl_error:
  "\<bar>fl x - x\<bar> \<le> 2 powi (expo x - 53)"
proof -
  define q :: real where "q = 2 powi (expo x - 52)"
  have q: "0 < q" by (simp add: q_def)
  have "fl x - x = (real_of_int (round_even (x / q)) - x / q) * q"
    using q by (simp add: fl_def Let_def q_def [symmetric] algebra_simps)
  then have "\<bar>fl x - x\<bar> = \<bar>real_of_int (round_even (x / q)) - x / q\<bar> * q"
    using q by (simp add: abs_mult)
  also have "\<dots> \<le> (1 / 2) * q"
    using round_even_error [of "x / q"] q by (intro mult_right_mono) auto
  also have "\<dots> = 2 powi (expo x - 53)"
    unfolding q_def
    using power_int_add [of "2::real" "expo x - 53" 1] by simp
  finally show ?thesis .
qed

lemma fl_error_small:
  assumes "\<bar>x\<bar> \<le> 2 ^ 40"
  shows "\<bar>fl x - x\<bar> \<le> 1 / 2 ^ 13"
proof -
  have "expo x \<le> 40" using assms by (intro expo_le) simp_all
  then have "(2::real) powi (expo x - 53) \<le> 2 powi (- 13)"
    by (intro power_int_increasing) auto
  with fl_error [of x] show ?thesis by (simp add: power_int_minus_divide)
qed

lemma fl_0: "fl 0 = 0"
  by (simp add: fl_def round_even_def)

lemma max_double_pos: "0 < max_double"
proof -
  have "(2::real) powi (- 52) \<le> 2 powi 0" by (intro power_int_increasing) auto
  then have "0 < 2 - (2::real) powi (- 52)" by simp
  then show ?thesis unfolding max_double_def by (intro mult_pos_pos) simp_all
qed

lemma max_double_large: "2 ^ 40 \<le> max_double"
proof -
  have a: "(2::real) powi (- 52) \<le> 2 powi 0" by (intro power_int_increasing) auto
  have b: "(2::real) powi 40 \<le> 2 powi 1023" by (intro power_int_increasing) auto
  have "(2::real) ^ 40 * 1 \<le> 2 powi 1023 * (2 - 2 powi (- 52))"
    using a b by (intro mult_mono) (simp_all del: power_int_numeral power_int_numeral_neg_numeral, simp)
  then show ?thesis by (simp add: max_double_def mult.commute del: power_int_numeral power_int_numeral_neg_numeral)
qed

lemma round_even_near:
  assumes "\<bar>y - real_of_int n\<bar> < 1 / 2"
  shows "round_even y = n"
proof -
  have "\<lfloor>y\<rfloor> = n \<or> \<lfloor>y\<rfloor> = n - 1" using assms by linarith
  then show ?thesis
  proof
    assume "\<lfloor>y\<rfloor> = n"
    moreover have "y - real_of_int n < 1 / 2" using assms by linarith
    ultimately show ?thesis by (simp add: round_even_def Let_def)
  next
    assume f: "\<lfloor>y\<rfloor> = n - 1"
    have "y - real_of_int (n - 1) > 1 / 2" using assms f by linarith
    with f show ?thesis by (simp add: round_even_def Let_def)
  qed
qed

lemma fl_eval:
  assumes "- 1022 \<le> e" "e \<le> 1023" "2 powi e \<le> \<bar>x\<bar>" "\<bar>x\<bar> < 2 powi (e + 1)"
    and "\<bar>x / 2 powi (e - 52) - real_of_int n\<bar> < 1 / 2"
  shows "fl x = real_of_int n * 2 powi (e - 52)"
  using expo_eq [OF assms(1-4)] round_even_near [OF assms(5)] by (simp add: fl_def Let_def)

lemma not_overflows: "\<bar>fl x\<bar> \<le> 2 ^ 40 \<Longrightarrow> \<not> overflows x"
  using max_double_large by (simp add: overflows_def)

lemma fl_milli: "fl (1 / 1000) = 4611686018427388 / 2 ^ 62"
  using fl_eval [of "- 10" "1 / 1000" 4611686018427388] by simp

lemma fl_tenth_milli: "fl (1 / 10000) = 7378697629483821 / 2 ^ 66"
  using fl_eval [of "- 14" "1 / 10000" 7378697629483821] by simp

lemma fl_tenth_milli_again: "fl (7378697629483821 / 2 ^ 66) = 7378697629483821 / 2 ^ 66"
  using fl_eval [of "- 14" "7378697629483821 / 2 ^ 66" 7378697629483821] by simp

lemma fl_big: "fl (10 ^ 16 - 4611686018427388 / 2 ^ 62) = 10 ^ 16"
  using fl_eval [of 53 "10 ^ 16 - 4611686018427388 / 2 ^ 62" 5000000000000000] by simp

lemma fl_100000: "fl 100000 = 100000"
  using fl_eval [of 16 100000 6871947673600000] by simp

lemma fl_product: "fl (100000 * (7378697629483821 / 2 ^ 66)) = 10"
  using fl_eval [of 3 "100000 * (7378697629483821 / 2 ^ 66)" 5629499534213120] by simp

lemma fl_10: "fl 10 = 10"
  using fl_eval [of 3 10 5629499534213120] by simp

subsection \<open>The single-target evaluator\<close>

lemma fl_near:
  assumes "\<bar>x\<bar> \<le> 2 ^ 40"
  shows "x - 1 / 8192 \<le> fl x" "fl x \<le> x + 1 / 8192"
proof -
  have "\<bar>fl x - x\<bar> \<le> 1 / 8192" using fl_error_small [OF assms] by simp
  then show "x - 1 / 8192 \<le> fl x" "fl x \<le> x + 1 / 8192" by linarith+
qed

lemma moveAnim_before:
  "t < sd \<Longrightarrow> moveAnim t fp tp d sd f = Inr fp"
  by (simp add: moveAnim_def)

lemma moveAnim_after:
  "sd \<le> t \<Longrightarrow> overflows (t - sd) \<or> fl (t - sd) > d \<Longrightarrow> moveAnim t fp tp d sd f = Inr tp"
  by (auto simp: moveAnim_def)

lemma moveAnim_between:
  assumes "0 < d" "sd \<le> t" "\<not> overflows (t - sd)" "fl (t - sd) \<le> d"
  shows "moveAnim t fp tp d sd f =
     (case float_relWeight f (fl (fl (t - sd) / d)) of
        Inl e \<Rightarrow> Inl e
      | Inr w \<Rightarrow>
          (case int_interpolate (fst fp) (fst tp) w of
             Inl e \<Rightarrow> Inl e
           | Inr x \<Rightarrow>
               (case int_interpolate (snd fp) (snd tp) w of
                  Inl e \<Rightarrow> Inl e
                | Inr y \<Rightarrow> Inr (real_of_int x, real_of_int y))))"
  using assms by (simp add: moveAnim_def float_div_def)

lemma moveAnim_just_before:
  assumes "\<bar>sd\<bar> \<le> 2 ^ 38"
  shows "moveAnim (fl (sd - fl (1 / 1000))) fp tp d sd f = Inr fp"
proof -
  define c where "c = fl (1 / 1000)"
  have c: "1 / 1000 - 1 / 8192 \<le> c" "c \<le> 1 / 1000 + 1 / 8192"
    unfolding c_def by (rule fl_near; simp)+
  have "\<bar>sd - c\<bar> \<le> 2 ^ 40" using assms c by (simp add: abs_le_iff)
  from fl_near(2) [OF this] c have "fl (sd - c) < sd" by simp
  then show ?thesis unfolding c_def by (rule moveAnim_before)
qed

lemma moveAnim_just_after:
  assumes "\<bar>sd\<bar> \<le> 2 ^ 38" "0 < d" "d \<le> 2 ^ 38"
  shows "moveAnim (fl (fl (sd + d) + fl (1 / 1000))) fp tp d sd f = Inr tp"
proof -
  define c where "c = fl (1 / 1000)"
  define A where "A = fl (sd + d)"
  define t where "t = fl (A + c)"
  have c: "1 / 1000 - 1 / 8192 \<le> c" "c \<le> 1 / 1000 + 1 / 8192"
    unfolding c_def by (rule fl_near; simp)+
  have "\<bar>sd + d\<bar> \<le> 2 ^ 40" using assms by (simp add: abs_le_iff)
  from fl_near [OF this] have A: "sd + d - 1 / 8192 \<le> A" "A \<le> sd + d + 1 / 8192"
    by (simp_all add: A_def)
  have "\<bar>A + c\<bar> \<le> 2 ^ 40" using assms A c by (simp add: abs_le_iff)
  from fl_near [OF this] have t: "A + c - 1 / 8192 \<le> t" "t \<le> A + c + 1 / 8192"
    by (simp_all add: t_def)
  have ge: "sd \<le> t" using assms A c t by simp
  have "\<bar>t - sd\<bar> \<le> 2 ^ 40" using assms A c t by (simp add: abs_le_iff)
  from fl_near(1) [OF this] have "d < fl (t - sd)" using A c t by simp
  with ge have "moveAnim t fp tp d sd f = Inr tp" by (intro moveAnim_after) simp_all
  then show ?thesis by (simp add: t_def A_def c_def)
qed

lemma int_interpolate_eval:
  assumes w: "(if w = 0 then fl (w + fl (1 / 10000)) else w) = w'"
    and d: "fl (b - a) = d" "\<bar>d\<bar> \<le> 2 ^ 40"
    and p: "fl (d * w') = p" "\<bar>p\<bar> \<le> 2 ^ 40"
    and r: "fl (a + p) = r" "\<bar>r\<bar> \<le> 2 ^ 40"
  shows "int_interpolate a b w = Inr (py_int r)"
proof -
  have 1: "\<not> overflows (b - a)" by (rule not_overflows) (simp only: d)
  have 2: "\<not> overflows (d * w')" by (rule not_overflows) (simp only: p)
  have 3: "\<not> overflows (a + p)" by (rule not_overflows) (simp only: r)
  show ?thesis unfolding int_interpolate_def Let_def w d(1) p(1) r(1) using 1 2 3 by simp
qed

lemma int_interpolate_nudged_x: "int_interpolate 0 100000 0 = Inr 10"
proof -
  have "int_interpolate 0 100000 0 = Inr (py_int 10)"
  proof (rule int_interpolate_eval [where w' = "7378697629483821 / 2 ^ 66" and d = 100000 and p = 10])
    show "(if (0::real) = 0 then fl (0 + fl (1 / 10000)) else 0) = 7378697629483821 / 2 ^ 66"
      by (simp only: simp_thms if_True add_0 fl_tenth_milli fl_tenth_milli_again)
    show "fl (100000 - 0) = 100000" by (simp only: diff_zero fl_100000)
    show "fl (100000 * (7378697629483821 / 2 ^ 66)) = 10" by (rule fl_product)
    show "fl (0 + 10) = 10" by (simp only: add_0 fl_10)
  qed simp_all
  then show ?thesis by (simp add: py_int_def)
qed

lemma int_interpolate_nudged_y: "int_interpolate 0 0 0 = Inr 0"
proof -
  have "int_interpolate 0 0 0 = Inr (py_int 0)"
  proof (rule int_interpolate_eval [where w' = "7378697629483821 / 2 ^ 66" and d = 0 and p = 0])
    show "(if (0::real) = 0 then fl (0 + fl (1 / 10000)) else 0) = 7378697629483821 / 2 ^ 66"
      by (simp only: simp_thms if_True add_0 fl_tenth_milli fl_tenth_milli_again)
    show "fl (0 - 0) = 0" by (simp only: diff_zero fl_0)
    show "fl (0 * (7378697629483821 / 2 ^ 66)) = 0" by (simp only: mult_zero_left fl_0)
    show "fl (0 + 0) = 0" by (simp only: add_0 fl_0)
  qed simp_all
  then show ?thesis by (simp add: py_int_def)
qed

lemma float_relWeight_0: "float_relWeight (\<lambda>x. x) 0 = Inr 0"
  by (simp add: float_relWeight_def fl_0 not_overflows)

text \<open>
  C3, as the claim has it, at \<open>start_delay = 10\<^sup>1\<^sup>6\<close>, where neighbouring floats are 2
  apart: \<^verbatim>\<open>start_delay - 0.001\<close> is \<open>start_delay\<close> itself, the evaluator is in its
  eased branch with the weight 0 that \<^verbatim>\<open>interpolate\<close> nudges to 0.0001, and from
  (0, 0) toward (100000, 0) over a duration of 1 under the identity easing it returns
  (10, 0) and not the from-position.
\<close>

theorem moveAnim_just_before_counterexample:
  "fl (10 ^ 16 - fl (1 / 1000)) = 10 ^ 16
   \<and> moveAnim (fl (10 ^ 16 - fl (1 / 1000))) (0, 0) (100000, 0) 1 (10 ^ 16) (\<lambda>x. x) = Inr (10, 0)
   \<and> moveAnim (fl (10 ^ 16 - fl (1 / 1000))) (0, 0) (100000, 0) 1 (10 ^ 16) (\<lambda>x. x) \<noteq> Inr (0, 0)"
proof -
  have t: "fl (10 ^ 16 - fl (1 / 1000)) = 10 ^ 16" by (simp only: fl_milli fl_big)
  have "moveAnim (10 ^ 16) (0, 0) (100000, 0) 1 (10 ^ 16) (\<lambda>x. x) = Inr (10, 0)"
    by (simp add: moveAnim_def float_div_def fl_0 not_overflows float_relWeight_0
        int_interpolate_nudged_x int_interpolate_nudged_y)
  with t show ?thesis by simp
qed

lemma fl_1: "fl 1 = 1"
  using fl_eval [of 0 1 "2 ^ 52"] by simp

lemma fl_half: "fl (1 / 2) = 1 / 2"
  using fl_eval [of "- 1" "1 / 2" "2 ^ 52"] by simp

lemma fl_500: "fl 500 = 500"
  using fl_eval [of 8 500 "500 * 2 ^ 44"] by simp

lemma fl_100: "fl 100 = 100"
  using fl_eval [of 6 100 "100 * 2 ^ 46"] by simp

lemma fl_50: "fl 50 = 50"
  using fl_eval [of 5 50 "50 * 2 ^ 47"] by simp

lemma fl_25: "fl 25 = 25"
  using fl_eval [of 4 25 "25 * 2 ^ 48"] by simp

lemma fl_9: "fl 9 = 9"
  using fl_eval [of 3 9 "9 * 2 ^ 49"] by simp

lemma float_relWeight_half: "float_relWeight (\<lambda>x. x) (1 / 2) = Inr (1 / 2)"
  by (simp add: float_relWeight_def fl_500 fl_half not_overflows)

lemma int_interpolate_half_x: "int_interpolate 0 100 (1 / 2) = Inr 50"
  by (simp add: int_interpolate_def Let_def fl_100 fl_50 not_overflows py_int_def)

lemma int_interpolate_half_y: "int_interpolate 0 50 (1 / 2) = Inr 25"
  by (simp add: int_interpolate_def Let_def fl_50 fl_25 not_overflows py_int_def)

text \<open>
  C3, amended. On floats and for a duration \<open>d > 0\<close>, \<open>moveAnim\<close> returns the
  from-position for every \<open>t < start_delay\<close>; the to-position for every
  \<open>t \<ge> start_delay\<close> whose rounded difference \<open>t - start_delay\<close> is above \<open>d\<close> (or
  infinite); and otherwise the pair of truncated interpolations under the weight
  \<open>floor(f((t - start_delay) / d) * 1000) / 1000\<close>, every operation rounded, with
  \<^verbatim>\<open>OverflowError\<close> where \<^verbatim>\<open>math.floor\<close> or \<^verbatim>\<open>int\<close> meets an infinity. At
  \<^verbatim>\<open>start_delay - 0.001\<close> it returns the from-position whenever
  \<open>|start_delay| \<le> 2\<^sup>3\<^sup>8\<close>, and at \<^verbatim>\<open>start_delay + d + 0.001\<close> the to-position
  whenever moreover \<open>d \<le> 2\<^sup>3\<^sup>8\<close>.
\<close>

theorem moveAnim_spec:
  assumes "0 < d"
  shows "(t < sd \<longrightarrow> moveAnim t fp tp d sd f = Inr fp)
       \<and> (sd \<le> t \<and> (overflows (t - sd) \<or> fl (t - sd) > d) \<longrightarrow>
            moveAnim t fp tp d sd f = Inr tp)
       \<and> (sd \<le> t \<and> \<not> overflows (t - sd) \<and> fl (t - sd) \<le> d \<longrightarrow>
            moveAnim t fp tp d sd f =
              (case float_relWeight f (fl (fl (t - sd) / d)) of
                 Inl e \<Rightarrow> Inl e
               | Inr w \<Rightarrow>
                   (case int_interpolate (fst fp) (fst tp) w of
                      Inl e \<Rightarrow> Inl e
                    | Inr x \<Rightarrow>
                        (case int_interpolate (snd fp) (snd tp) w of
                           Inl e \<Rightarrow> Inl e
                         | Inr y \<Rightarrow> Inr (real_of_int x, real_of_int y)))))
       \<and> (\<bar>sd\<bar> \<le> 2 ^ 38 \<longrightarrow> moveAnim (fl (sd - fl (1 / 1000))) fp tp d sd f = Inr fp)
       \<and> (\<bar>sd\<bar> \<le> 2 ^ 38 \<and> d \<le> 2 ^ 38 \<longrightarrow>
            moveAnim (fl (fl (sd + d) + fl (1 / 1000))) fp tp d sd f = Inr tp)"
  using assms moveAnim_before [of t sd fp tp d f] moveAnim_after [of sd t d fp tp f]
    moveAnim_between [of d sd t fp tp f] moveAnim_just_before [of sd fp tp d f]
    moveAnim_just_after [of sd d fp tp f]
  by blast

theorem moveAnim_spec_witness:
  "(0::real) < 2
   \<and> moveAnim 0 (0, 0) (100, 50) 2 1 (\<lambda>x. x) = Inr (0, 0)
   \<and> moveAnim 10 (0, 0) (100, 50) 2 1 (\<lambda>x. x) = Inr (100, 50)
   \<and> moveAnim 2 (0, 0) (100, 50) 2 1 (\<lambda>x. x) = Inr (50, 25)
   \<and> moveAnim (fl (1 - fl (1 / 1000))) (0, 0) (100, 50) 2 1 (\<lambda>x. x) = Inr (0, 0)
   \<and> moveAnim (fl (fl (1 + 2) + fl (1 / 1000))) (0, 0) (100, 50) 2 1 (\<lambda>x. x) = Inr (100, 50)"
proof -
  have d: "(0::real) < 2" by simp
  note s = moveAnim_spec [OF d, where sd = 1 and fp = "(0, 0)" and tp = "(100, 50)"
      and f = "\<lambda>x. x"]
  from s [of 0] have a: "moveAnim 0 (0, 0) (100, 50) 2 1 (\<lambda>x. x) = Inr (0, 0)" by simp
  from s [of 10] have b: "moveAnim 10 (0, 0) (100, 50) 2 1 (\<lambda>x. x) = Inr (100, 50)"
    by (simp add: fl_9)
  from s [of 2] have c: "moveAnim 2 (0, 0) (100, 50) 2 1 (\<lambda>x. x) = Inr (50, 25)"
    by (simp add: fl_1 fl_half not_overflows float_relWeight_half int_interpolate_half_x
        int_interpolate_half_y)
  from s [of 0]
  have e: "moveAnim (fl (1 - fl (1 / 1000))) (0, 0) (100, 50) 2 1 (\<lambda>x. x) = Inr (0, 0)"
    by simp
  from s [of 0]
  have g: "moveAnim (fl (fl (1 + 2) + fl (1 / 1000))) (0, 0) (100, 50) 2 1 (\<lambda>x. x) = Inr (100, 50)"
    by simp
  from d a b c e g show ?thesis by (simp only: simp_thms)
qed

subsection \<open>The multi-keyframe evaluator\<close>













subsection \<open>The grid resolver\<close>

text \<open>
  C5, as the claim has it, at the anchor \<open>center\<close>: on a 1200 by 1200 screen, for an
  element of 100 by 100 in cell (0,0), the offset (1,1), scaled to (50,50), leaves the
  output where the offset (0,0) puts it; and \<open>left\<close> ignores the vertical offset.
\<close>

theorem get_coords_center_counterexample:
  "get_coords (new_GridSystem (1200, 1200)) (100, 100) (0, 0) ''center'' (1, 1) = Inr (0, 0)
   \<and> get_coords (new_GridSystem (1200, 1200)) (100, 100) (0, 0) ''center'' (0, 0) = Inr (0, 0)
   \<and> get_coords (new_GridSystem (1200, 1200)) (100, 100) (0, 0) ''left'' (0, 1)
       = get_coords (new_GridSystem (1200, 1200)) (100, 100) (0, 0) ''left'' (0, 0)"
  by (simp add: get_coords_def new_GridSystem_def strip_def lower_def lower_char_def)

lemma norm_names:
  "strip (lower ''center'') = ''center''" "strip (lower ''left'') = ''left''"
  "strip (lower ''right'') = ''right''" "strip (lower ''top'') = ''top''"
  "strip (lower ''bottom'') = ''bottom''" "strip (lower ''topleft'') = ''topleft''"
  "strip (lower ''topright'') = ''topright''" "strip (lower ''bottomleft'') = ''bottomleft''"
  "strip (lower ''bottomright'') = ''bottomright''"
  by (simp_all add: strip_def lower_def lower_char_def)

text \<open>
  C5, amended. The resolver's output for each of the nine anchors, at every grid,
  element size, cell and offset. On an axis where the anchor sits on an edge (x for
  left, right and the corners, y for top, bottom and the corners) the coordinate is
  the cell's edge point moved by \<open>offset * (dimension / 2)\<close>, subtracted at the left
  and top edges and added at the right and bottom edges; on an axis where the anchor
  is centred the offset is not used, so \<open>center\<close> ignores the offset altogether.
\<close>

theorem get_coords_spec:
  "get_coords g (w, h) (row, col) ''center'' (ox, oy) =
     Inr (col * column_gap g + column_gap g / 2 - w / 2, row * row_gap g + row_gap g / 2 - h / 2)
   \<and> get_coords g (w, h) (row, col) ''left'' (ox, oy) =
     Inr (col * column_gap g - ox * (w / 2), row * row_gap g + row_gap g / 2 - h / 2)
   \<and> get_coords g (w, h) (row, col) ''right'' (ox, oy) =
     Inr (col * column_gap g + column_gap g - w + ox * (w / 2), row * row_gap g + row_gap g / 2 - h / 2)
   \<and> get_coords g (w, h) (row, col) ''top'' (ox, oy) =
     Inr (col * column_gap g + column_gap g / 2 - w / 2, row * row_gap g - oy * (h / 2))
   \<and> get_coords g (w, h) (row, col) ''bottom'' (ox, oy) =
     Inr (col * column_gap g + column_gap g / 2 - w / 2, row * row_gap g + row_gap g - h + oy * (h / 2))
   \<and> get_coords g (w, h) (row, col) ''topleft'' (ox, oy) =
     Inr (col * column_gap g - ox * (w / 2), row * row_gap g - oy * (h / 2))
   \<and> get_coords g (w, h) (row, col) ''topright'' (ox, oy) =
     Inr (col * column_gap g + column_gap g - w + ox * (w / 2), row * row_gap g - oy * (h / 2))
   \<and> get_coords g (w, h) (row, col) ''bottomleft'' (ox, oy) =
     Inr (col * column_gap g - ox * (w / 2), row * row_gap g + row_gap g - h + oy * (h / 2))
   \<and> get_coords g (w, h) (row, col) ''bottomright'' (ox, oy) =
     Inr (col * column_gap g + column_gap g - w + ox * (w / 2),
          row * row_gap g + row_gap g - h + oy * (h / 2))"
  by (simp add: get_coords_def norm_names Let_def)

subsection \<open>Reading finish from the store\<close>

lemma collect_map_Inr_id: "collect (map Inr vs) = Inr vs"
  by (induction vs) simp_all

lemma collect_Inr_D: "collect rs = Inr vs \<Longrightarrow> rs = map Inr vs"
proof (induction rs arbitrary: vs rule: collect.induct)
  case 1
  then show ?case by simp
next
  case (2 e rs)
  then show ?case by simp
next
  case (3 v rs)
  from "3.prems" obtain ws where w: "collect rs = Inr ws" "vs = v # ws"
    by (auto split: sum.splits)
  with "3.IH" show ?case by simp
qed

lemma collect_Inr_iff: "collect rs = Inr vs \<longleftrightarrow> rs = map Inr vs"
  using collect_Inr_D collect_map_Inr_id by blast

lemma collect_map_Inr:
  "collect (map f xs) = Inr vs \<longleftrightarrow> map f xs = map Inr vs"
  by (rule collect_Inr_iff)

lemma collect_map_cong:
  "(\<And>x. x \<in> set xs \<Longrightarrow> f x = g x) \<Longrightarrow> collect (map f xs) = collect (map g xs)"
  by (simp cong: map_cong)

lemma Component_finish_cong:
  assumes "objs h' r = objs h r"
      and "lists h' (children (objs h r)) = lists h (children (objs h r))"
      and "\<And>x. x \<in> set (lists h (children (objs h r))) \<Longrightarrow> f x = g x"
  shows "Component_finish f h' r = Component_finish g h r"
proof -
  have "collect (map f (lists h (children (objs h r)))) =
        collect (map g (lists h (children (objs h r))))"
    by (rule collect_map_cong) (rule assms(3))
  then show ?thesis by (simp add: Component_finish_def assms(1,2) Let_def)
qed

lemma Tape_finish_cong:
  assumes "objs h' r = objs h r"
      and "lists h' (children (objs h r)) = lists h (children (objs h r))"
      and "\<And>x. x \<in> set (lists h (children (objs h r))) \<Longrightarrow> f x = g x"
  shows "Tape_finish f h' r = Tape_finish g h r"
  using Component_finish_cong [OF assms] by (simp add: Tape_finish_def assms(1))

lemma Sound_finish_cong: "objs h' r = objs h r \<Longrightarrow> Sound_finish h' r = Sound_finish h r"
  by (simp add: Sound_finish_def)

lemma finish_Suc_cong:
  assumes "objs h' r = objs h r"
      and "lists h' (children (objs h r)) = lists h (children (objs h r))"
      and "\<And>x. x \<in> set (lists h (children (objs h r))) \<Longrightarrow> finish n h' x = finish m h x"
  shows "finish (Suc n) h' r = finish (Suc m) h r"
  using Component_finish_cong [OF assms, of "\<lambda>x. x"] Tape_finish_cong [OF assms, of "\<lambda>x. x"]
    Sound_finish_cong [OF assms(1)]
  by (simp add: assms(1) split: cls.splits)

text \<open>\<open>finish\<close> reads the allocated objects and the children lists only.\<close>

lemma finish_cong:
  assumes wf: "\<forall>l. \<forall>x \<in> set (lists h l). x < N"
      and ob: "\<forall>x<N. objs h' x = objs h x"
      and li: "lists h' = lists h"
  shows "r < N \<Longrightarrow> finish n h' r = finish n h r"
proof (induction n arbitrary: r)
  case 0
  then show ?case by simp
next
  case (Suc n)
  show ?case
  proof (rule finish_Suc_cong)
    show "objs h' r = objs h r" using ob Suc.prems by simp
    show "lists h' (children (objs h r)) = lists h (children (objs h r))" by (simp add: li)
    show "finish n h' x = finish n h x" if "x \<in> set (lists h (children (objs h r)))" for x
      using that wf Suc.IH by auto
  qed
qed

lemma copy_eq:
  "copy c h = (next_obj h, h\<lparr> objs := (objs h)(next_obj h := objs h c), next_obj := Suc (next_obj h) \<rparr>)"
  by (simp add: copy_def alloc_obj_def)

lemma finish_copy:
  assumes "wf_heap h" "r < next_obj h"
  shows "finish n (snd (copy c h)) r = finish n h r"
  using assms by (intro finish_cong [where N = "next_obj h"]) (auto simp: copy_eq wf_heap_def)

lemma add_component_Inr:
  assumes "add_component n p c m s h = (Inr r, h')" "p < next_obj h" "wf_heap h"
  defines "b \<equiv> begin' (objs h' (next_obj h))"
  shows "r = p \<and> h' = inserted h p c b \<and>
     ((m = ''compose'' \<and> b = begin' (objs h p) + s)
      \<or> (m = ''concat'' \<and> lists h (children (objs h p)) = [] \<and> b = s)
      \<or> (m = ''concat'' \<and> lists h (children (objs h p)) \<noteq> [] \<and>
           finish n h (last (lists h (children (objs h p)))) = Inr (b - s))
      \<or> (m = ''last'' \<and> lists h (children (objs h p)) = [] \<and> b = s)
      \<or> (m = ''last'' \<and> lists h (children (objs h p)) \<noteq> [] \<and>
           b = begin' (objs h (last (lists h (children (objs h p))))) + s))"
proof -
  let ?L = "children (objs h p)"
  let ?h1 = "snd (copy c h)"
  have p: "p \<noteq> next_obj h" using assms(2) by simp
  have lastlt: "last (lists h ?L) < next_obj h" if "lists h ?L \<noteq> []"
  proof -
    from that have "last (lists h ?L) \<in> set (lists h ?L)" by (rule last_in_set)
    with assms(3) show ?thesis unfolding wf_heap_def by blast
  qed
  have fin: "lists h ?L \<noteq> [] \<Longrightarrow> finish n ?h1 (last (lists h ?L)) = finish n h (last (lists h ?L))"
    using finish_copy [OF assms(3) lastlt] by simp
  show ?thesis
    using assms(1) p fin lastlt unfolding b_def
    by (auto simp: add_component_def copy_eq set_begin_def list_append_def inserted_def Let_def
             split: if_splits sum.splits)
qed

lemma collect_map_transfer:
  assumes "collect (map f xs) = Inr vs"
      and "\<And>x w. x \<in> set xs \<Longrightarrow> f x = Inr w \<Longrightarrow> g x = Inr w"
  shows "collect (map g xs) = Inr vs"
proof -
  from assms(1) have m: "map f xs = map Inr vs" by (simp add: collect_Inr_iff)
  have "map g xs = map f xs"
  proof (rule map_cong [OF refl])
    fix x assume x: "x \<in> set xs"
    then have "f x \<in> set (map f xs)" by simp
    then have "f x \<in> set (map Inr vs)" by (simp only: m)
    then obtain w where "f x = Inr w" by auto
    with assms(2) x show "g x = f x" by simp
  qed
  with m show ?thesis by (simp add: collect_Inr_iff)
qed

lemma collect_map_member:
  assumes "collect (map f xs) = Inr vs" "x \<in> set xs"
  shows "\<exists>w. f x = Inr w"
proof -
  from assms(1) have m: "map f xs = map Inr vs" by (simp add: collect_Inr_iff)
  from assms(2) have "f x \<in> set (map f xs)" by simp
  then have "f x \<in> set (map Inr vs)" by (simp only: m)
  then show ?thesis by auto
qed

lemma Component_finish_transfer:
  assumes "objs h' r = objs h r"
      and "lists h' (children (objs h r)) = lists h (children (objs h r))"
      and "\<And>x w. x \<in> set (lists h (children (objs h r))) \<Longrightarrow> f x = Inr w \<Longrightarrow> g x = Inr w"
      and "Component_finish f h r = Inr v"
  shows "Component_finish g h' r = Inr v"
proof (cases "lists h (children (objs h r)) = []")
  case True
  with assms(4) show ?thesis by (simp add: Component_finish_def assms(1,2))
next
  case False
  with assms(4) obtain fs where fs: "collect (map f (lists h (children (objs h r)))) = Inr fs"
    and v: "v = py_max fs (begin' (objs h r))"
    by (auto simp: Component_finish_def Let_def split: sum.splits)
  have "collect (map g (lists h (children (objs h r)))) = Inr fs"
    by (rule collect_map_transfer [OF fs]) (rule assms(3))
  with False v show ?thesis by (simp add: Component_finish_def assms(1,2))
qed

lemma Tape_finish_transfer:
  assumes "objs h' r = objs h r"
      and "lists h' (children (objs h r)) = lists h (children (objs h r))"
      and "\<And>x w. x \<in> set (lists h (children (objs h r))) \<Longrightarrow> f x = Inr w \<Longrightarrow> g x = Inr w"
      and "Tape_finish f h r = Inr v"
  shows "Tape_finish g h' r = Inr v"
proof -
  from assms(4) obtain cf where cf: "Component_finish f h r = Inr cf"
    and v: "v = max cf (begin' (objs h r) + clip_duration (clip (objs h r)))"
    by (auto simp: Tape_finish_def Let_def split: sum.splits)
  have "Component_finish g h' r = Inr cf"
    by (rule Component_finish_transfer [OF assms(1,2) _ cf]) (rule assms(3))
  with v show ?thesis by (simp add: Tape_finish_def assms(1) Let_def)
qed

lemma finish_Suc_transfer:
  assumes "objs h' r = objs h r"
      and "lists h' (children (objs h r)) = lists h (children (objs h r))"
      and "\<And>x w. x \<in> set (lists h (children (objs h r))) \<Longrightarrow>
             finish n h x = Inr w \<Longrightarrow> finish m h' x = Inr w"
      and "finish (Suc n) h r = Inr v"
  shows "finish (Suc m) h' r = Inr v"
proof (cases "cls (objs h r)")
  case Sound
  with assms(4) show ?thesis by (simp add: assms(1) Sound_finish_def)
next
  case Tape
  with assms(4) have t: "Tape_finish (finish n h) h r = Inr v" by simp
  have "Tape_finish (finish m h') h' r = Inr v"
    by (rule Tape_finish_transfer [OF assms(1,2) _ t]) (rule assms(3))
  with Tape show ?thesis by (simp add: assms(1))
next
  case Component
  with assms(4) have t: "Component_finish (finish n h) h r = Inr v" by simp
  have "Component_finish (finish m h') h' r = Inr v"
    by (rule Component_finish_transfer [OF assms(1,2) _ t]) (rule assms(3))
  with Component show ?thesis by (simp add: assms(1))
next
  case Film
  with assms(4) have t: "Component_finish (finish n h) h r = Inr v" by simp
  have "Component_finish (finish m h') h' r = Inr v"
    by (rule Component_finish_transfer [OF assms(1,2) _ t]) (rule assms(3))
  with Film show ?thesis by (simp add: assms(1))
next
  case Screen
  with assms(4) have t: "Component_finish (finish n h) h r = Inr v" by simp
  have "Component_finish (finish m h') h' r = Inr v"
    by (rule Component_finish_transfer [OF assms(1,2) _ t]) (rule assms(3))
  with Screen show ?thesis by (simp add: assms(1))
qed

lemma finish_Suc_mono: "finish n h r = Inr v \<Longrightarrow> finish (Suc n) h r = Inr v"
proof (induction n arbitrary: r v)
  case 0
  then show ?case by simp
next
  case (Suc n)
  show ?case
    by (rule finish_Suc_transfer [OF refl refl _ Suc.prems]) (rule Suc.IH)
qed

lemma finish_mono: "finish n h r = Inr v \<Longrightarrow> n \<le> m \<Longrightarrow> finish m h r = Inr v"
  by (induction m) (auto simp: le_Suc_eq finish_Suc_mono simp del: finish.simps)

text \<open>
  A read of \<open>finish\<close> that returns on an element of the list \<open>L\<close> never reads
  \<open>L\<close>: otherwise it would read itself with less fuel, and the least fuel it
  returns with would not be least. So it is not changed by an append to \<open>L\<close> and
  by writes to objects allocated later.
\<close>

lemma finish_stable:
  assumes wf: "\<forall>l. \<forall>x \<in> set (lists h l). x < N"
      and ob: "\<forall>x<N. objs h' x = objs h x"
      and li: "\<forall>l. l \<noteq> L \<longrightarrow> lists h' l = lists h l"
      and kL: "k \<in> set (lists h L)"
      and ok: "finish n h k = Inr fk"
  shows "finish n h' k = Inr fk"
proof -
  define m where "m = (LEAST j. \<exists>v. finish j h k = Inr v)"
  have ex: "\<exists>v. finish m h k = Inr v"
    unfolding m_def by (rule LeastI [of "\<lambda>j. \<exists>v. finish j h k = Inr v" n]) (use ok in blast)
  have least: "\<And>j v. finish j h k = Inr v \<Longrightarrow> m \<le> j"
    unfolding m_def by (rule Least_le) blast
  have mn: "m \<le> n" using least ok by blast
  have step: "j \<le> m \<Longrightarrow> r < N \<Longrightarrow> finish j h r = Inr v \<Longrightarrow> finish j h' r = Inr v" for j r v
  proof (induction j arbitrary: r v)
    case 0
    then show ?case by simp
  next
    case (Suc j)
    have o: "objs h' r = objs h r" using ob Suc.prems(2) by simp
    show ?case
    proof (cases "cls (objs h r) = Sound")
      case True
      with Suc.prems(3) show ?thesis by (simp add: o Sound_finish_def)
    next
      case False
      show ?thesis
      proof (cases "lists h (children (objs h r)) = []")
        case True
        have "children (objs h r) \<noteq> L" using True kL by auto
        then have l: "lists h' (children (objs h r)) = lists h (children (objs h r))"
          using li by simp
        show ?thesis
          by (rule finish_Suc_transfer [OF o l _ Suc.prems(3)]) (simp add: True)
      next
        case ne: False
        have cf: "\<exists>fs. collect (map (finish j h) (lists h (children (objs h r)))) = Inr fs"
          using Suc.prems(3) False ne
          by (auto simp: Component_finish_def Tape_finish_def Let_def split: cls.splits sum.splits)
        have "children (objs h r) \<noteq> L"
        proof
          assume "children (objs h r) = L"
          from cf obtain fs where
            "collect (map (finish j h) (lists h (children (objs h r)))) = Inr fs" by blast
          from collect_map_member [OF this, of k] kL \<open>children (objs h r) = L\<close>
          obtain w where "finish j h k = Inr w" by auto
          from least [OF this] Suc.prems(1) show False by simp
        qed
        then have l: "lists h' (children (objs h r)) = lists h (children (objs h r))"
          using li by simp
        show ?thesis
        proof (rule finish_Suc_transfer [OF o l _ Suc.prems(3)])
          fix x w assume "x \<in> set (lists h (children (objs h r)))" "finish j h x = Inr w"
          with wf Suc.IH Suc.prems(1) show "finish j h' x = Inr w" by auto
        qed
      qed
    qed
  qed
  from ex obtain v where v: "finish m h k = Inr v" by blast
  from finish_mono [OF v mn] ok have "v = fk" by simp
  have "k < N" using wf kL by blast
  from step [OF le_refl this v] have "finish m h' k = Inr v" .
  from finish_mono [OF this mn] \<open>v = fk\<close> show ?thesis by simp
qed

lemma add_component_shape:
  assumes "add_component n p c m s h = (Inr r, h')" "p < next_obj h"
  shows "r = p \<and> h' = inserted h p c (begin' (objs h' (next_obj h)))"
  using assms
  by (auto simp: add_component_def copy_eq set_begin_def list_append_def inserted_def Let_def
           split: if_splits sum.splits)

lemma inserted_simps:
  "next_obj (inserted h p c b) = Suc (next_obj h)"
  "objs (inserted h p c b) = (objs h)(next_obj h := (objs h c)\<lparr> begin' := b \<rparr>)"
  "lists (inserted h p c b) =
     (lists h)(children (objs h p) := lists h (children (objs h p)) @ [next_obj h])"
  "effect_lists (inserted h p c b) = effect_lists h"
  "animation_sets (inserted h p c b) = animation_sets h"
  by (simp_all add: inserted_def)


subsection \<open>Finish and lifetime by class\<close>

text \<open>
  C10. For every \<^verbatim>\<open>Sound\<close> node, whatever its children list holds, finish is
  begin plus the duration of the wrapped clip and lifetime is that duration; the
  children are not read, so a child that ends later does not extend the sound.
\<close>

theorem Sound_finish_lifetime:
  assumes "cls (objs h r) = Sound"
  shows "finish (Suc n) h r = Inr (begin' (objs h r) + audio_duration (sound_clip (objs h r)))
       \<and> lifetime m h r = Inr (audio_duration (sound_clip (objs h r)))"
  using assms by (simp add: Sound_finish_def lifetime_def Let_def)

text \<open>
  C7, amended. A node with no children: of class \<^verbatim>\<open>Component\<close>,
  \<^verbatim>\<open>Film\<close> or \<^verbatim>\<open>Screen\<close>, its finish is its begin and its lifetime is
  0; of class \<^verbatim>\<open>Tape\<close>, its finish is the later of its begin and its begin plus
  the clip's duration and its lifetime is the clip's duration; of class
  \<^verbatim>\<open>Sound\<close>, its finish is its begin plus the clip's duration and its lifetime
  is the clip's duration.
\<close>

theorem childless_finish_lifetime:
  assumes "lists h (children (objs h r)) = []"
  shows "(cls (objs h r) \<in> {Component, Film, Screen} \<longrightarrow>
            finish (Suc n) h r = Inr (begin' (objs h r)) \<and> lifetime (Suc n) h r = Inr 0)
       \<and> (cls (objs h r) = Tape \<longrightarrow>
            finish (Suc n) h r =
              Inr (max (begin' (objs h r)) (begin' (objs h r) + clip_duration (clip (objs h r))))
            \<and> lifetime m h r = Inr (clip_duration (clip (objs h r))))
       \<and> (cls (objs h r) = Sound \<longrightarrow>
            finish (Suc n) h r = Inr (begin' (objs h r) + audio_duration (sound_clip (objs h r)))
            \<and> lifetime m h r = Inr (audio_duration (sound_clip (objs h r))))"
  using assms
  by (auto simp: Component_finish_def Tape_finish_def Sound_finish_def lifetime_def Let_def)

subsection \<open>Placement of an inserted child\<close>

lemma add_component_placed:
  assumes "wf_heap h" "p < next_obj h" "add_component n p c m s h = (Inr r, h')"
  defines "prior \<equiv> lists h (children (objs h p))"
      and "kid \<equiv> last (lists h' (children (objs h' p)))"
  shows "lists h' (children (objs h' p)) = prior @ [kid] \<and> begin' (objs h' p) = begin' (objs h p)
       \<and> (m = ''compose'' \<longrightarrow> begin' (objs h' kid) = begin' (objs h p) + s)
       \<and> (m = ''concat'' \<longrightarrow>
            (prior = [] \<longrightarrow> begin' (objs h' kid) = s)
            \<and> (prior \<noteq> [] \<longrightarrow>
                 (\<exists>f. finish n h (last prior) = Inr f \<and> finish n h' (last prior) = Inr f
                      \<and> begin' (objs h' kid) = f + s)))
       \<and> (m = ''last'' \<longrightarrow>
            (prior = [] \<longrightarrow> begin' (objs h' kid) = s)
            \<and> (prior \<noteq> [] \<longrightarrow>
                 begin' (objs h' kid) = begin' (objs h (last prior)) + s
                 \<and> begin' (objs h' (last prior)) = begin' (objs h (last prior))))
       \<and> m \<in> {''compose'', ''concat'', ''last''}"
proof -
  define b where "b = begin' (objs h' (next_obj h))"
  note ch = add_component_Inr [OF assms(3,2,1), folded b_def prior_def]
  then have h': "h' = inserted h p c b" by simp
  have pn: "p \<noteq> next_obj h" using assms(2) by simp
  have op: "objs h' p = objs h p" using pn by (simp add: h' inserted_simps)
  have li: "lists h' (children (objs h' p)) = prior @ [next_obj h]"
    unfolding op by (simp add: h' inserted_simps prior_def)
  then have kid: "kid = next_obj h" by (simp add: kid_def)
  have bk: "begin' (objs h' kid) = b" by (simp add: kid b_def)
  have lastlt: "last prior < next_obj h" if "prior \<noteq> []"
  proof -
    from that have "last prior \<in> set prior" by (rule last_in_set)
    with assms(1) show ?thesis unfolding wf_heap_def prior_def by blast
  qed
  have ol: "objs h' (last prior) = objs h (last prior)" if "prior \<noteq> []"
    using lastlt [OF that] by (simp add: h' inserted_simps)
  have st: "finish n h' (last prior) = Inr f" if "prior \<noteq> []" "finish n h (last prior) = Inr f" for f
  proof (rule finish_stable [where N = "next_obj h" and L = "children (objs h p)" and h = h])
    show "\<forall>l. \<forall>x\<in>set (lists h l). x < next_obj h" using assms(1) by (simp add: wf_heap_def)
    show "\<forall>x<next_obj h. objs h' x = objs h x" by (simp add: h' inserted_simps)
    show "\<forall>l. l \<noteq> children (objs h p) \<longrightarrow> lists h' l = lists h l" by (simp add: h' inserted_simps)
    show "last prior \<in> set (lists h (children (objs h p)))"
      using that(1) last_in_set [of prior] by (simp add: prior_def)
    show "finish n h (last prior) = Inr f" by (rule that(2))
  qed
  note dj = ch [THEN conjunct2, THEN conjunct2]
  have A: "lists h' (children (objs h' p)) = prior @ [kid]" using li kid by simp
  have B: "begin' (objs h' p) = begin' (objs h p)" by (simp add: op)
  have C: "m = ''compose'' \<longrightarrow> begin' (objs h' kid) = begin' (objs h p) + s"
    using dj unfolding bk by auto
  have D1: "m = ''concat'' \<longrightarrow> prior = [] \<longrightarrow> begin' (objs h' kid) = s"
    using dj unfolding bk by auto
  have D2: "m = ''concat'' \<longrightarrow> prior \<noteq> [] \<longrightarrow>
              (\<exists>f. finish n h (last prior) = Inr f \<and> finish n h' (last prior) = Inr f
                   \<and> begin' (objs h' kid) = f + s)"
  proof (intro impI)
    assume m: "m = ''concat''" and ne: "prior \<noteq> []"
    from dj m ne have f: "finish n h (last prior) = Inr (b - s)" by auto
    from st [OF ne f] f show "\<exists>f. finish n h (last prior) = Inr f
        \<and> finish n h' (last prior) = Inr f \<and> begin' (objs h' kid) = f + s"
      unfolding bk by auto
  qed
  have E1: "m = ''last'' \<longrightarrow> prior = [] \<longrightarrow> begin' (objs h' kid) = s"
    using dj unfolding bk by auto
  have E2: "m = ''last'' \<longrightarrow> prior \<noteq> [] \<longrightarrow>
              begin' (objs h' kid) = begin' (objs h (last prior)) + s
              \<and> begin' (objs h' (last prior)) = begin' (objs h (last prior))"
    using dj ol unfolding bk by auto
  have F: "m \<in> {''compose'', ''concat'', ''last''}" using dj by auto
  from A B C D1 D2 E1 E2 F show ?thesis by blast
qed

lemma add_component_returns:
  assumes "wf_heap h" "p < next_obj h"
  defines "prior \<equiv> lists h (children (objs h p))"
  shows "m = ''compose'' \<Longrightarrow> fst (add_component n p c m s h) = Inr p"
    and "m = ''concat'' \<Longrightarrow> prior = [] \<Longrightarrow> fst (add_component n p c m s h) = Inr p"
    and "m = ''concat'' \<Longrightarrow> prior \<noteq> [] \<Longrightarrow> finish n h (last prior) = Inr f \<Longrightarrow>
           fst (add_component n p c m s h) = Inr p"
    and "m = ''concat'' \<Longrightarrow> prior \<noteq> [] \<Longrightarrow> finish n h (last prior) = Inl e \<Longrightarrow>
           fst (add_component n p c m s h) = Inl e
           \<and> lists (snd (add_component n p c m s h)) = lists h
           \<and> (\<forall>x<next_obj h. objs (snd (add_component n p c m s h)) x = objs h x)"
    and "m = ''last'' \<Longrightarrow> fst (add_component n p c m s h) = Inr p"
proof -
  let ?L = "children (objs h p)"
  have pn: "p \<noteq> next_obj h" using assms(2) by simp
  have fin: "finish n (snd (copy c h)) (last (lists h ?L)) = finish n h (last (lists h ?L))"
    if "lists h ?L \<noteq> []"
  proof (rule finish_copy [OF assms(1)])
    from that have "last (lists h ?L) \<in> set (lists h ?L)" by (rule last_in_set)
    with assms(1) show "last (lists h ?L) < next_obj h" unfolding wf_heap_def by blast
  qed
  show "m = ''compose'' \<Longrightarrow> fst (add_component n p c m s h) = Inr p"
    by (simp add: add_component_def copy_eq Let_def)
  show "m = ''concat'' \<Longrightarrow> prior = [] \<Longrightarrow> fst (add_component n p c m s h) = Inr p"
    using pn by (simp add: add_component_def copy_eq Let_def prior_def)
  show "m = ''concat'' \<Longrightarrow> prior \<noteq> [] \<Longrightarrow> finish n h (last prior) = Inr f \<Longrightarrow>
           fst (add_component n p c m s h) = Inr p"
    using pn fin by (simp add: add_component_def copy_eq Let_def prior_def)
  show "m = ''concat'' \<Longrightarrow> prior \<noteq> [] \<Longrightarrow> finish n h (last prior) = Inl e \<Longrightarrow>
           fst (add_component n p c m s h) = Inl e
           \<and> lists (snd (add_component n p c m s h)) = lists h
           \<and> (\<forall>x<next_obj h. objs (snd (add_component n p c m s h)) x = objs h x)"
    using pn fin by (simp add: add_component_def copy_eq Let_def prior_def)
  show "m = ''last'' \<Longrightarrow> fst (add_component n p c m s h) = Inr p"
    using pn by (simp add: add_component_def copy_eq Let_def)
qed

text \<open>
  C2. On a well-formed store, for an allocated parent \<open>P\<close> and a start value \<open>s\<close>:
  \<^verbatim>\<open>add_component\<close> under \<^verbatim>\<open>compose\<close> returns and the copy, the last
  child of \<open>P\<close>, begins at \<open>P\<close>'s begin plus \<open>s\<close>; under \<^verbatim>\<open>concat\<close> it
  returns when \<open>P\<close> has no children, the copy beginning at \<open>s\<close>, and otherwise
  returns exactly when reading the previous sibling's finish returns, the copy
  beginning at that finish (the same before and after the call) plus \<open>s\<close>; under
  \<^verbatim>\<open>last\<close> it returns, the copy beginning at \<open>s\<close> when \<open>P\<close> has no children
  and at the previous sibling's begin plus \<open>s\<close> otherwise. Every call that returns
  is under one of the three policies and has appended a new object with the
  attributes of the component.
\<close>

theorem add_component_policy:
  fixes n :: nat and p c :: ref and m :: string and s :: real and h :: heap
  assumes "wf_heap h" "p < next_obj h"
  defines "prior \<equiv> lists h (children (objs h p))"
      and "h' \<equiv> snd (add_component n p c m s h)"
  defines "kid \<equiv> last (lists h' (children (objs h' p)))"
  shows "(m = ''compose'' \<longrightarrow>
            fst (add_component n p c m s h) = Inr p
            \<and> lists h' (children (objs h' p)) = prior @ [kid]
            \<and> begin' (objs h' kid) = begin' (objs h p) + s)
       \<and> (m = ''concat'' \<and> prior = [] \<longrightarrow>
            fst (add_component n p c m s h) = Inr p
            \<and> lists h' (children (objs h' p)) = [kid]
            \<and> begin' (objs h' kid) = s)
       \<and> (m = ''concat'' \<and> prior \<noteq> [] \<longrightarrow>
            (\<forall>f. finish n h (last prior) = Inr f \<longrightarrow>
                 fst (add_component n p c m s h) = Inr p
                 \<and> lists h' (children (objs h' p)) = prior @ [kid]
                 \<and> finish n h' (last prior) = Inr f
                 \<and> begin' (objs h' kid) = f + s)
            \<and> (\<forall>e. finish n h (last prior) = Inl e \<longrightarrow>
                 fst (add_component n p c m s h) = Inl e
                 \<and> lists h' (children (objs h' p)) = prior))
       \<and> (m = ''last'' \<and> prior = [] \<longrightarrow>
            fst (add_component n p c m s h) = Inr p
            \<and> lists h' (children (objs h' p)) = [kid]
            \<and> begin' (objs h' kid) = s)
       \<and> (m = ''last'' \<and> prior \<noteq> [] \<longrightarrow>
            fst (add_component n p c m s h) = Inr p
            \<and> lists h' (children (objs h' p)) = prior @ [kid]
            \<and> begin' (objs h' kid) = begin' (objs h (last prior)) + s
            \<and> begin' (objs h' (last prior)) = begin' (objs h (last prior)))
       \<and> (\<forall>r. fst (add_component n p c m s h) = Inr r \<longrightarrow>
            r = p \<and> m \<in> {''compose'', ''concat'', ''last''}
            \<and> kid = next_obj h
            \<and> objs h' kid = (objs h c)\<lparr> begin' := begin' (objs h' kid) \<rparr>
            \<and> begin' (objs h' p) = begin' (objs h p))"
proof -
  note ret = add_component_returns [OF assms(1,2), folded prior_def]
  have placed: "add_component n p c m s h = (Inr r, h') \<Longrightarrow>
      lists h' (children (objs h' p)) = prior @ [kid] \<and> begin' (objs h' p) = begin' (objs h p)
       \<and> (m = ''compose'' \<longrightarrow> begin' (objs h' kid) = begin' (objs h p) + s)
       \<and> (m = ''concat'' \<longrightarrow>
            (prior = [] \<longrightarrow> begin' (objs h' kid) = s)
            \<and> (prior \<noteq> [] \<longrightarrow>
                 (\<exists>f. finish n h (last prior) = Inr f \<and> finish n h' (last prior) = Inr f
                      \<and> begin' (objs h' kid) = f + s)))
       \<and> (m = ''last'' \<longrightarrow>
            (prior = [] \<longrightarrow> begin' (objs h' kid) = s)
            \<and> (prior \<noteq> [] \<longrightarrow>
                 begin' (objs h' kid) = begin' (objs h (last prior)) + s
                 \<and> begin' (objs h' (last prior)) = begin' (objs h (last prior))))
       \<and> m \<in> {''compose'', ''concat'', ''last''}" for r
    unfolding prior_def kid_def by (rule add_component_placed [OF assms(1,2)])
  have pair: "fst (add_component n p c m s h) = Inr r \<Longrightarrow> add_component n p c m s h = (Inr r, h')" for r
    by (simp add: h'_def prod_eq_iff)
  have A: "m = ''compose'' \<longrightarrow>
            fst (add_component n p c m s h) = Inr p
            \<and> lists h' (children (objs h' p)) = prior @ [kid]
            \<and> begin' (objs h' kid) = begin' (objs h p) + s"
  proof
    assume a: "m = ''compose''"
    from ret(1) [OF a] have r: "fst (add_component n p c m s h) = Inr p" .
    from placed [OF pair [OF r]] a r
    show "fst (add_component n p c m s h) = Inr p
            \<and> lists h' (children (objs h' p)) = prior @ [kid]
            \<and> begin' (objs h' kid) = begin' (objs h p) + s"
      by simp
  qed
  have B: "m = ''concat'' \<and> prior = [] \<longrightarrow>
            fst (add_component n p c m s h) = Inr p
            \<and> lists h' (children (objs h' p)) = [kid]
            \<and> begin' (objs h' kid) = s"
  proof
    assume a: "m = ''concat'' \<and> prior = []"
    from ret(2) a have r: "fst (add_component n p c m s h) = Inr p" by simp
    from placed [OF pair [OF r]] a r
    show "fst (add_component n p c m s h) = Inr p
            \<and> lists h' (children (objs h' p)) = [kid]
            \<and> begin' (objs h' kid) = s"
      by simp
  qed
  have C1: "m = ''concat'' \<and> prior \<noteq> [] \<longrightarrow>
            (\<forall>f. finish n h (last prior) = Inr f \<longrightarrow>
                 fst (add_component n p c m s h) = Inr p
                 \<and> lists h' (children (objs h' p)) = prior @ [kid]
                 \<and> finish n h' (last prior) = Inr f
                 \<and> begin' (objs h' kid) = f + s)"
  proof (intro impI allI)
    fix f assume a: "m = ''concat'' \<and> prior \<noteq> []" and f: "finish n h (last prior) = Inr f"
    from ret(3) a f have r: "fst (add_component n p c m s h) = Inr p" by blast
    from placed [OF pair [OF r]] a f r
    show "fst (add_component n p c m s h) = Inr p
                 \<and> lists h' (children (objs h' p)) = prior @ [kid]
                 \<and> finish n h' (last prior) = Inr f
                 \<and> begin' (objs h' kid) = f + s"
      by simp
  qed
  have C2: "m = ''concat'' \<and> prior \<noteq> [] \<longrightarrow>
            (\<forall>e. finish n h (last prior) = Inl e \<longrightarrow>
                 fst (add_component n p c m s h) = Inl e
                 \<and> lists h' (children (objs h' p)) = prior)"
  proof (intro impI allI)
    fix e assume a: "m = ''concat'' \<and> prior \<noteq> []" and e: "finish n h (last prior) = Inl e"
    from ret(4) a e have r: "fst (add_component n p c m s h) = Inl e"
      and l: "lists h' = lists h" and o: "objs h' p = objs h p"
      using assms(2) unfolding h'_def by blast+
    show "fst (add_component n p c m s h) = Inl e \<and> lists h' (children (objs h' p)) = prior"
      using r by (simp add: l o prior_def)
  qed
  have D: "m = ''last'' \<and> prior = [] \<longrightarrow>
            fst (add_component n p c m s h) = Inr p
            \<and> lists h' (children (objs h' p)) = [kid]
            \<and> begin' (objs h' kid) = s"
  proof
    assume a: "m = ''last'' \<and> prior = []"
    from ret(5) a have r: "fst (add_component n p c m s h) = Inr p" by simp
    from placed [OF pair [OF r]] a r
    show "fst (add_component n p c m s h) = Inr p
            \<and> lists h' (children (objs h' p)) = [kid]
            \<and> begin' (objs h' kid) = s"
      by simp
  qed
  have E: "m = ''last'' \<and> prior \<noteq> [] \<longrightarrow>
            fst (add_component n p c m s h) = Inr p
            \<and> lists h' (children (objs h' p)) = prior @ [kid]
            \<and> begin' (objs h' kid) = begin' (objs h (last prior)) + s
            \<and> begin' (objs h' (last prior)) = begin' (objs h (last prior))"
  proof
    assume a: "m = ''last'' \<and> prior \<noteq> []"
    from ret(5) a have r: "fst (add_component n p c m s h) = Inr p" by simp
    from placed [OF pair [OF r]] a r
    show "fst (add_component n p c m s h) = Inr p
            \<and> lists h' (children (objs h' p)) = prior @ [kid]
            \<and> begin' (objs h' kid) = begin' (objs h (last prior)) + s
            \<and> begin' (objs h' (last prior)) = begin' (objs h (last prior))"
      by simp
  qed
  have F: "\<forall>r. fst (add_component n p c m s h) = Inr r \<longrightarrow>
            r = p \<and> m \<in> {''compose'', ''concat'', ''last''}
            \<and> kid = next_obj h
            \<and> objs h' kid = (objs h c)\<lparr> begin' := begin' (objs h' kid) \<rparr>
            \<and> begin' (objs h' p) = begin' (objs h p)"
  proof (intro allI impI)
    fix r assume r: "fst (add_component n p c m s h) = Inr r"
    note sh = add_component_shape [OF pair [OF r] assms(2)]
    then have rp: "r = p" and hi: "h' = inserted h p c (begin' (objs h' (next_obj h)))" by simp_all
    have pn: "p \<noteq> next_obj h" using assms(2) by simp
    have op: "objs h' p = objs h p"
      by (subst hi) (simp add: inserted_simps pn)
    have li: "lists h' (children (objs h' p)) = prior @ [next_obj h]"
      unfolding op by (subst hi) (simp add: inserted_simps prior_def)
    then have k: "kid = next_obj h" by (simp add: kid_def)
    have ok: "objs h' kid = (objs h c)\<lparr> begin' := begin' (objs h' kid) \<rparr>"
      unfolding k by (subst hi) (simp add: inserted_simps)
    from placed [OF pair [OF r]] rp k ok op
    show "r = p \<and> m \<in> {''compose'', ''concat'', ''last''}
            \<and> kid = next_obj h
            \<and> objs h' kid = (objs h c)\<lparr> begin' := begin' (objs h' kid) \<rparr>
            \<and> begin' (objs h' p) = begin' (objs h p)"
      by simp
  qed
  have C: "m = ''concat'' \<and> prior \<noteq> [] \<longrightarrow>
            (\<forall>f. finish n h (last prior) = Inr f \<longrightarrow>
                 fst (add_component n p c m s h) = Inr p
                 \<and> lists h' (children (objs h' p)) = prior @ [kid]
                 \<and> finish n h' (last prior) = Inr f
                 \<and> begin' (objs h' kid) = f + s)
            \<and> (\<forall>e. finish n h (last prior) = Inl e \<longrightarrow>
                 fst (add_component n p c m s h) = Inl e
                 \<and> lists h' (children (objs h' p)) = prior)"
  proof (intro impI conjI)
    assume a: "m = ''concat'' \<and> prior \<noteq> []"
    from C1 [rule_format, OF a] show "\<forall>f. finish n h (last prior) = Inr f \<longrightarrow>
                 fst (add_component n p c m s h) = Inr p
                 \<and> lists h' (children (objs h' p)) = prior @ [kid]
                 \<and> finish n h' (last prior) = Inr f
                 \<and> begin' (objs h' kid) = f + s"
      by (intro allI impI)
    from C2 [rule_format, OF a] show "\<forall>e. finish n h (last prior) = Inl e \<longrightarrow>
                 fst (add_component n p c m s h) = Inl e
                 \<and> lists h' (children (objs h' p)) = prior"
      by (intro allI impI)
  qed
  from A B C D E F show ?thesis by (intro conjI)
qed

subsection \<open>Rejected arguments\<close>

text \<open>
  C9, amended. \<^verbatim>\<open>add_component\<close> with a policy name other than
  \<^verbatim>\<open>compose\<close>, \<^verbatim>\<open>concat\<close>, \<^verbatim>\<open>last\<close> raises
  \<^verbatim>\<open>ValueError\<close> and leaves every children list and every allocated object as
  it was; \<^verbatim>\<open>get_coords\<close> raises \<^verbatim>\<open>ValueError\<close> for every anchor name
  whose lower-cased form, stripped of leading and trailing spaces, is not one of the
  nine.
\<close>

theorem invalid_arguments:
  "(m \<notin> {''compose'', ''concat'', ''last''} \<and> p < next_obj h \<longrightarrow>
      fst (add_component n p c m s h) = Inl ValueError
      \<and> lists (snd (add_component n p c m s h))
           (children (objs (snd (add_component n p c m s h)) p))
          = lists h (children (objs h p))
      \<and> lists (snd (add_component n p c m s h)) = lists h
      \<and> (\<forall>x<next_obj h. objs (snd (add_component n p c m s h)) x = objs h x))
   \<and> (strip (lower a) \<notin> set valid_anchors \<longrightarrow> get_coords g wh cell a ofs = Inl ValueError)"
  by (auto simp: add_component_def copy_eq valid_anchors_def get_coords_def Let_def)

text \<open>
  C9, as the claim has it, at the anchor name \<^verbatim>\<open>CENTER\<close>: it is not one of the
  nine names and the resolver returns coordinates.
\<close>

theorem anchor_case_counterexample:
  "''CENTER'' \<notin> set valid_anchors
   \<and> get_coords (new_GridSystem (1200, 1200)) (100, 100) (0, 0) ''CENTER'' (0, 0) = Inr (0, 0)"
  by (simp add: valid_anchors_def get_coords_def new_GridSystem_def strip_def lower_def lower_char_def)

subsection \<open>Chained insertion under concat\<close>










subsection \<open>Copy on insert\<close>

text \<open>
  C1, amended. A successful \<^verbatim>\<open>add_component\<close> appends a new object, not the
  reference to \<open>C\<close>: a shallow copy, with \<open>C\<close>'s attribute values and its own
  begin, that holds the same children list, effects list and animation set as \<open>C\<close>.
  Reassigning \<open>C\<close>'s begin or binding \<open>C\<close>'s \<^verbatim>\<open>animations\<close> to another set
  afterwards leaves the inserted child and every list and animation set as they were;
  an append to \<open>C\<close>'s children or effects list, and an assignment to a slot of \<open>C\<close>'s
  animation set, show in the inserted child.
\<close>

theorem add_component_shallow_copy:
  assumes "p < next_obj h" "c < next_obj h" "add_component n p c m s h = (Inr r, h')"
  defines "kid \<equiv> last (lists h' (children (objs h' p)))"
  shows "kid = next_obj h \<and> kid \<noteq> c \<and> objs h' c = objs h c
       \<and> objs h' kid = (objs h c)\<lparr> begin' := begin' (objs h' kid) \<rparr>
       \<and> children (objs h' kid) = children (objs h' c)
       \<and> effects (objs h' kid) = effects (objs h' c)
       \<and> animations (objs h' kid) = animations (objs h' c)
       \<and> (objs (set_begin c v h') kid = objs h' kid
            \<and> lists (set_begin c v h') = lists h'
            \<and> effect_lists (set_begin c v h') = effect_lists h'
            \<and> animation_sets (set_begin c v h') = animation_sets h')
       \<and> (objs (set_animations c a h') kid = objs h' kid
            \<and> lists (set_animations c a h') = lists h'
            \<and> effect_lists (set_animations c a h') = effect_lists h'
            \<and> animation_sets (set_animations c a h') = animation_sets h')
       \<and> lists (children_append c x h') (children (objs (children_append c x h') kid))
            = lists h' (children (objs h' kid)) @ [x]
       \<and> effect_lists (effects_append c e h') (effects (objs (effects_append c e h') kid))
            = effect_lists h' (effects (objs h' kid)) @ [e]
       \<and> (cls (objs h c) = Tape \<longrightarrow>
            animation_sets (snd (with_position_animation c pa h'))
                (animations (objs (snd (with_position_animation c pa h')) kid))
              = (animation_sets h' (animations (objs h' kid)))\<lparr> position := Some pa \<rparr>)"
proof -
  define b where "b = begin' (objs h' (next_obj h))"
  from add_component_shape [OF assms(3,1)] have h': "h' = inserted h p c b" by (simp add: b_def)
  have pn: "p \<noteq> next_obj h" and cn: "c \<noteq> next_obj h" using assms(1,2) by simp_all
  have op: "objs h' p = objs h p" using pn by (simp add: h' inserted_simps)
  have k: "kid = next_obj h" unfolding kid_def op by (simp add: h' inserted_simps)
  have kc: "kid \<noteq> c" using cn k by simp
  have oc: "objs h' c = objs h c" using cn by (simp add: h' inserted_simps)
  have ok: "objs h' kid = (objs h c)\<lparr> begin' := b \<rparr>" by (simp add: k h' inserted_simps)
  have bk: "begin' (objs h' kid) = b" by (simp add: ok)
  have sh: "children (objs h' kid) = children (objs h' c)" "effects (objs h' kid) = effects (objs h' c)"
    "animations (objs h' kid) = animations (objs h' c)"
    by (simp_all add: ok oc)
  have sb: "objs (set_begin c v h') kid = objs h' kid \<and> lists (set_begin c v h') = lists h'
      \<and> effect_lists (set_begin c v h') = effect_lists h'
      \<and> animation_sets (set_begin c v h') = animation_sets h'"
    using kc by (simp add: set_begin_def)
  have sa: "objs (set_animations c a h') kid = objs h' kid \<and> lists (set_animations c a h') = lists h'
      \<and> effect_lists (set_animations c a h') = effect_lists h'
      \<and> animation_sets (set_animations c a h') = animation_sets h'"
    using kc by (simp add: set_animations_def)
  have ca: "lists (children_append c x h') (children (objs (children_append c x h') kid))
            = lists h' (children (objs h' kid)) @ [x]"
    by (simp add: children_append_def list_append_def sh)
  have ea: "effect_lists (effects_append c e h') (effects (objs (effects_append c e h') kid))
            = effect_lists h' (effects (objs h' kid)) @ [e]"
    by (simp add: effects_append_def Let_def sh)
  have pa: "cls (objs h c) = Tape \<longrightarrow>
            animation_sets (snd (with_position_animation c pa h'))
                (animations (objs (snd (with_position_animation c pa h')) kid))
              = (animation_sets h' (animations (objs h' kid)))\<lparr> position := Some pa \<rparr>"
    by (simp add: with_position_animation_def Let_def sh oc)
  from k kc oc ok [folded bk] sh sb sa ca ea pa show ?thesis by blast
qed

subsection \<open>The composition guard\<close>

lemma compose_no_films:
  "cls (objs h s) = Screen \<Longrightarrow> lists h (children (objs h s)) = [] \<Longrightarrow>
   compose n s h = (Inl ValueError, h)"
  by (simp add: compose_def)

lemma query_unbound:
  "end' (objs h s) = None \<Longrightarrow> run_query q s h = Inl RuntimeError"
  by (simp add: run_query_def ensure_ready_def)

lemma query_bound:
  "end' (objs h s) = Some c \<Longrightarrow>
   run_query q s h =
     Inr (case q of Render \<Rightarrow> Written c | Get_end_video \<Rightarrow> Video c
          | Show \<Rightarrow> Shown c | Preview \<Rightarrow> Previewed c)"
  by (simp add: run_query_def ensure_ready_def)

lemma new_Screen_unbound:
  "new_Screen sz rate nm h0 = (s, h) \<Longrightarrow> end' (objs h s) = None"
  by (auto simp: new_Screen_def alloc_list_def alloc_obj_def Let_def)

section \<open>Examples\<close>

lemmas store_defs =
  empty_heap_def new_Tape_def new_Sound_def new_Film_def new_Component_def new_Screen_def
  alloc_list_def alloc_effect_list_def alloc_animation_set_def alloc_obj_def
  add_sound_def add_component_def copy_def set_begin_def list_append_def Let_def

lemma finish_numeral:
  "finish (numeral k) h r =
     (case cls (objs h r) of
        Sound \<Rightarrow> Sound_finish h r
      | Tape \<Rightarrow> Tape_finish (finish (pred_numeral k) h) h r
      | _ \<Rightarrow> Component_finish (finish (pred_numeral k) h) h r)"
  by (simp add: numeral_eq_Suc)

lemma finish_1:
  "finish 1 h r =
     (case cls (objs h r) of
        Sound \<Rightarrow> Sound_finish h r
      | Tape \<Rightarrow> Tape_finish (finish 0 h) h r
      | _ \<Rightarrow> Component_finish (finish 0 h) h r)"
  using finish.simps(2) [of 0 h r] by simp

lemmas finish_defs =
  finish_numeral finish_1 Component_finish_def Tape_finish_def Sound_finish_def lifetime_def

lemma e: "lists sound_store (children (objs sound_store 0)) = [2]"
    "begin' (objs sound_store 0) = 0" "audio_duration (sound_clip (objs sound_store 0)) = 2"
    by (simp_all add: sound_store_def store_defs audio_of_def blank_audio_def)

lemma k: "finish 3 sound_store 2 = Inr 13"
    by (simp add: sound_store_def store_defs finish_defs audio_of_def blank_audio_def)

lemmas example_defs = store_defs clip_of_def audio_of_def blank_clip_def blank_audio_def

lemma film_store_eval:
  "next_obj film_store = 5"
  "lists film_store = (\<lambda>_. [])(0 := [2])"
  "cls (objs film_store 0) = Tape" "cls (objs film_store 1) = Sound"
  "cls (objs film_store 2) = Sound"
  "cls (objs film_store 3) = Tape" "cls (objs film_store 4) = Film"
  "children (objs film_store 0) = 0" "children (objs film_store 1) = 1"
  "children (objs film_store 2) = 1"
  "children (objs film_store 3) = 2" "children (objs film_store 4) = 3"
  "begin' (objs film_store 0) = 0" "begin' (objs film_store 2) = 0"
  "begin' (objs film_store 3) = 0" "begin' (objs film_store 4) = 0"
  "clip_duration (clip (objs film_store 0)) = 2" "clip_duration (clip (objs film_store 3)) = 1"
  "audio_duration (sound_clip (objs film_store 1)) = 5"
  "audio_duration (sound_clip (objs film_store 2)) = 5"
  "effects (objs film_store 0) = 0" "effect_lists film_store = (\<lambda>_. [])"
  by (simp_all add: film_store_def example_defs fun_eq_iff)

lemma wf_film_store: "wf_heap film_store"
  by (simp add: wf_heap_def film_store_eval)

text \<open>
  C7, as the claim has it, at a tape of 1 second without children that begins at 0: its
  finish is 1, not its begin, and its lifetime is 1, not 0.
\<close>

theorem childless_tape_counterexample:
  "cls (objs film_store 3) = Tape \<and> lists film_store (children (objs film_store 3)) = []
   \<and> begin' (objs film_store 3) = 0
   \<and> finish 3 film_store 3 = Inr 1 \<and> lifetime 3 film_store 3 = Inr 1"
  by (simp add: film_store_eval finish_defs Let_def)

theorem childless_finish_lifetime_witness:
  "lists film_store (children (objs film_store 4)) = []
   \<and> cls (objs film_store 4) \<in> {Component, Film, Screen}
   \<and> finish 3 film_store 4 = Inr 0 \<and> lifetime 3 film_store 4 = Inr 0
   \<and> lists film_store (children (objs film_store 3)) = []
   \<and> cls (objs film_store 3) = Tape
   \<and> finish 3 film_store 3 = Inr 1 \<and> lifetime 3 film_store 3 = Inr 1
   \<and> lists film_store (children (objs film_store 2)) = []
   \<and> cls (objs film_store 2) = Sound
   \<and> finish 3 film_store 2 = Inr 5 \<and> lifetime 3 film_store 2 = Inr 5"
proof -
  have a: "lists film_store (children (objs film_store 4)) = []"
    and b: "lists film_store (children (objs film_store 3)) = []"
    and c: "lists film_store (children (objs film_store 2)) = []"
    by (simp_all add: film_store_eval)
  from childless_finish_lifetime [OF a, of 2 2] childless_finish_lifetime [OF b, of 2 3]
    childless_finish_lifetime [OF c, of 2 3]
  show ?thesis by (simp add: film_store_eval)
qed

lemmas insert_defs =
  add_component_def copy_def alloc_obj_def set_begin_def list_append_def Let_def





lemma copy_store_eval:
  "fst (add_component 3 4 0 ''compose'' 0 film_store) = Inr 4"
  "next_obj copy_store = 6"
  "lists copy_store = (\<lambda>_. [])(0 := [2], 3 := [5])"
  "children (objs copy_store 4) = 3" "children (objs copy_store 5) = 0"
  "children (objs copy_store 0) = 0"
  "effects (objs copy_store 5) = 0" "effects (objs copy_store 0) = 0"
  "effect_lists copy_store = (\<lambda>_. [])"
  "finish 3 copy_store 5 = Inr 5"
  "cls (objs copy_store 5) = Tape" "cls (objs copy_store 2) = Sound"
  "begin' (objs copy_store 5) = 0" "begin' (objs copy_store 2) = 0"
  "clip_duration (clip (objs copy_store 5)) = 2"
  "audio_duration (sound_clip (objs copy_store 2)) = 5"
  by (simp_all add: copy_store_def insert_defs film_store_eval finish_defs fun_eq_iff)

lemma wf_copy_store: "wf_heap copy_store"
  by (simp add: wf_heap_def copy_store_eval)

text \<open>
  C1, as the claim has it: after the first tape is inserted into the film, an append to
  the tape's children list and an append to its effects list both show in the
  inserted child, object 5.
\<close>

theorem shared_lists_counterexample:
  "fst (add_component 3 4 0 ''compose'' 0 film_store) = Inr 4
   \<and> lists copy_store (children (objs copy_store 4)) = [5]
   \<and> lists copy_store (children (objs copy_store 5)) = [2]
   \<and> lists (children_append 0 3 copy_store) (children (objs (children_append 0 3 copy_store) 5))
        = [2, 3]
   \<and> effect_lists copy_store (effects (objs copy_store 5)) = []
   \<and> effect_lists (effects_append 0 7 copy_store) (effects (objs (effects_append 0 7 copy_store) 5))
        = [7]"
  by (simp add: copy_store_eval children_append_def list_append_def effects_append_def Let_def)

theorem add_component_shallow_copy_witness:
  "4 < next_obj film_store \<and> 0 < next_obj film_store
   \<and> add_component 3 4 0 ''compose'' 0 film_store = (Inr 4, copy_store)
   \<and> last (lists copy_store (children (objs copy_store 4))) = 5
   \<and> cls (objs film_store 0) = Tape
   \<and> objs (set_begin 0 9 copy_store) 5 = objs copy_store 5
   \<and> objs (set_animations 0 8 copy_store) 5 = objs copy_store 5
   \<and> lists (children_append 0 3 copy_store) (children (objs (children_append 0 3 copy_store) 5))
        = lists copy_store (children (objs copy_store 5)) @ [3]
   \<and> effect_lists (effects_append 0 7 copy_store) (effects (objs (effects_append 0 7 copy_store) 5))
        = effect_lists copy_store (effects (objs copy_store 5)) @ [7]"
proof -
  have p: "4 < next_obj film_store" and c: "0 < next_obj film_store"
    by (simp_all add: film_store_eval)
  have a: "add_component 3 4 0 ''compose'' 0 film_store = (Inr 4, copy_store)"
    using copy_store_eval(1) unfolding copy_store_def by (simp add: prod_eq_iff)
  have k: "last (lists copy_store (children (objs copy_store 4))) = 5"
    by (simp add: copy_store_eval)
  from add_component_shallow_copy [OF p c a, of 9 8 3 7] p c a
  show ?thesis unfolding k by (simp add: film_store_eval)
qed

lemma copy_store_begins:
  "begin' (objs copy_store 4) = 0"
  by (simp add: copy_store_def insert_defs film_store_eval)

theorem add_component_policy_witness:
  "wf_heap copy_store \<and> 4 < next_obj copy_store
   \<and> lists copy_store (children (objs copy_store 4)) = [5]
   \<and> begin' (objs copy_store 4) = 0 \<and> begin' (objs copy_store 5) = 0
   \<and> finish 3 copy_store 5 = Inr 5
   \<and> fst (add_component 3 4 3 ''compose'' 1 copy_store) = Inr 4
   \<and> begin' (objs compose_placed_store
               (last (lists compose_placed_store (children (objs compose_placed_store 4))))) = 0 + 1
   \<and> fst (add_component 3 4 3 ''concat'' 1 copy_store) = Inr 4
   \<and> begin' (objs placed_store
               (last (lists placed_store (children (objs placed_store 4))))) = 5 + 1
   \<and> fst (add_component 3 4 3 ''last'' 1 copy_store) = Inr 4
   \<and> begin' (objs last_placed_store
               (last (lists last_placed_store (children (objs last_placed_store 4))))) = 0 + 1
   \<and> wf_heap film_store \<and> 4 < next_obj film_store
   \<and> lists film_store (children (objs film_store 4)) = []
   \<and> fst (add_component 3 4 3 ''concat'' 1 film_store) = Inr 4
   \<and> begin' (objs first_concat_store
               (last (lists first_concat_store (children (objs first_concat_store 4))))) = 1
   \<and> fst (add_component 3 4 3 ''last'' 1 film_store) = Inr 4
   \<and> begin' (objs first_last_store
               (last (lists first_last_store (children (objs first_last_store 4))))) = 1"
proof -
  have p: "4 < next_obj copy_store" and q: "4 < next_obj film_store"
    by (simp_all add: copy_store_eval film_store_eval)
  have pr: "lists copy_store (children (objs copy_store 4)) = [5]"
    and em: "lists film_store (children (objs film_store 4)) = []"
    by (simp_all add: copy_store_eval film_store_eval)
  note b = copy_store_begins copy_store_eval(13) copy_store_eval(10)
  note c1 = add_component_policy [OF wf_copy_store p, where n = 3 and c = 3 and m = "''compose''" and s = 1,
      folded compose_placed_store_def]
  note c2 = add_component_policy [OF wf_copy_store p, where n = 3 and c = 3 and m = "''concat''" and s = 1,
      folded placed_store_def]
  note c3 = add_component_policy [OF wf_copy_store p, where n = 3 and c = 3 and m = "''last''" and s = 1,
      folded last_placed_store_def]
  note f2 = add_component_policy [OF wf_film_store q, where n = 3 and c = 3 and m = "''concat''" and s = 1,
      folded first_concat_store_def]
  note f3 = add_component_policy [OF wf_film_store q, where n = 3 and c = 3 and m = "''last''" and s = 1,
      folded first_last_store_def]
  have 1: "fst (add_component 3 4 3 ''compose'' 1 copy_store) = Inr 4
     \<and> begin' (objs compose_placed_store
               (last (lists compose_placed_store (children (objs compose_placed_store 4))))) = 0 + 1"
    using c1 [THEN conjunct1] b by simp
  have 2: "fst (add_component 3 4 3 ''concat'' 1 copy_store) = Inr 4
     \<and> begin' (objs placed_store
               (last (lists placed_store (children (objs placed_store 4))))) = 5 + 1"
    using c2 [THEN conjunct2, THEN conjunct2, THEN conjunct1] b pr by simp
  have 3: "fst (add_component 3 4 3 ''last'' 1 copy_store) = Inr 4
     \<and> begin' (objs last_placed_store
               (last (lists last_placed_store (children (objs last_placed_store 4))))) = 0 + 1"
    using c3 [THEN conjunct2, THEN conjunct2, THEN conjunct2, THEN conjunct2, THEN conjunct1] b pr by simp
  have 4: "fst (add_component 3 4 3 ''concat'' 1 film_store) = Inr 4
     \<and> begin' (objs first_concat_store
               (last (lists first_concat_store (children (objs first_concat_store 4))))) = 1"
    using f2 [THEN conjunct2, THEN conjunct1] em by simp
  have 5: "fst (add_component 3 4 3 ''last'' 1 film_store) = Inr 4
     \<and> begin' (objs first_last_store
               (last (lists first_last_store (children (objs first_last_store 4))))) = 1"
    using f3 [THEN conjunct2, THEN conjunct2, THEN conjunct2, THEN conjunct1] em by simp
  from 1 2 3 4 5 wf_copy_store wf_film_store p q pr em b show ?thesis by simp
qed

theorem invalid_arguments_witness:
  "''diagonal'' \<notin> {''compose'', ''concat'', ''last''} \<and> 4 < next_obj film_store
   \<and> fst (add_component 3 4 3 ''diagonal'' 0 film_store) = Inl ValueError
   \<and> lists (snd (add_component 3 4 3 ''diagonal'' 0 film_store)) = lists film_store
   \<and> strip (lower ''middle'') \<notin> set valid_anchors
   \<and> get_coords (new_GridSystem (1200, 1200)) (100, 100) (0, 0) ''middle'' (0, 0) = Inl ValueError"
proof -
  have m: "''diagonal'' \<notin> {''compose'', ''concat'', ''last''}" by simp
  have p: "4 < next_obj film_store" by (simp add: film_store_eval)
  have a: "strip (lower ''middle'') \<notin> set valid_anchors"
    by (simp add: strip_def lower_def lower_char_def valid_anchors_def)
  from invalid_arguments [of "''diagonal''" 4 film_store 3 3 0 "''middle''"
      "new_GridSystem (1200, 1200)" "(100, 100)" "(0, 0)" "(0, 0)"] m p a
  show ?thesis by blast
qed

lemma screen_store_eval:
  "new_Screen (1200, 1200) 24 ''screen'' film_store = (5, screen_store)"
  "cls (objs screen_store 5) = Screen"
  "lists screen_store (children (objs screen_store 5)) = []"
  by (simp_all add: screen_store_def new_Screen_def alloc_list_def alloc_obj_def Let_def
        film_store_eval prod_eq_iff)

lemma music_store_eval:
  "next_obj music_store = 9"
  "cls (objs music_store 5) = Screen"
  "lists music_store (children (objs music_store 5)) = [7]"
  "bg_music (objs music_store 5) = Some 8"
  "end' (objs music_store 5) = None"
  "start_offset (objs music_store 8) = Some 10"
  "audio_duration (sound_clip (objs music_store 8)) = 5"
  by (simp_all add: music_store_def music_program_def screen_store_def film_store_def
        example_defs insert_defs add_film_def add_bg_music_def with_fade_def
        with_start_offset_def new_Screen_def new_GridSystem_def new_AnimationSet_def
        blank_obj_def)

lemma music_program_returns:
  "map (\<lambda>k. fst (perform 4 (music_program ! k) (run 4 (take k music_program) screen_store)))
     [0, 1, 2] = [Inr 4, Inr 5, Inr 5]"
  by (simp add: music_program_def screen_store_def film_store_def example_defs insert_defs
        add_film_def add_bg_music_def with_fade_def with_start_offset_def new_Screen_def
        new_GridSystem_def new_AnimationSet_def blank_obj_def)

lemma music_store_finish: "finish 4 music_store 5 = Inr 5"
  by (simp add: music_store_def music_program_def screen_store_def film_store_def
        example_defs insert_defs finish_defs add_film_def add_bg_music_def with_fade_def
        with_start_offset_def new_Screen_def new_GridSystem_def new_AnimationSet_def
        blank_obj_def)

lemma music_store_cut: "compose_bg_music (objs music_store 8) 5 = Inl ValueError"
  by (simp add: compose_bg_music_def subclipped_def music_store_eval)

lemma compose_music_store:
  "fst (compose 4 5 music_store) = Inl ValueError"
  "\<exists>c. end' (objs failed_store 5) = Some c \<and> composite_audio c = None"
  unfolding failed_store_def
  by (simp_all add: music_store_def music_program_def screen_store_def film_store_def
        example_defs insert_defs finish_defs add_film_def add_bg_music_def with_fade_def
        with_start_offset_def compose_def compose_film_def compose_tape_def
        compose_sound_def compose_bg_music_def subclipped_def set_end_def truthy_def
        get_coords_def strip_def lower_def lower_char_def new_Screen_def
        new_GridSystem_def new_AnimationSet_def ensure_ready_def blank_obj_def)

text \<open>
  C8, at a program the package accepts. The screen holds one film, 5 seconds in all,
  and as background music a sound of 5 seconds with the start offset 10; every call so
  far has returned, no \<^verbatim>\<open>compose()\<close> among them, and the queries raise
  \<^verbatim>\<open>RuntimeError\<close>. Now \<^verbatim>\<open>compose()\<close> raises \<^verbatim>\<open>ValueError\<close>, from the cut of
  the background music, after it has bound the composition without audio to
  \<^verbatim>\<open>_end\<close>. From then on the guard passes, and \<^verbatim>\<open>render\<close>,
  \<^verbatim>\<open>get_end_video\<close>, \<^verbatim>\<open>show\<close> and \<^verbatim>\<open>preview\<close> work on that composition,
  although no \<^verbatim>\<open>compose()\<close> has returned.
\<close>

theorem compose_raises_yet_ready:
  "run_query Render 5 music_store = Inl RuntimeError
   \<and> run_query Get_end_video 5 music_store = Inl RuntimeError
   \<and> run_query Show 5 music_store = Inl RuntimeError
   \<and> run_query Preview 5 music_store = Inl RuntimeError
   \<and> fst (compose 4 5 music_store) = Inl ValueError
   \<and> ensure_ready 5 failed_store = Inr True
   \<and> composite_audio (the (end' (objs failed_store 5))) = None
   \<and> run_query Render 5 failed_store = Inr (Written (the (end' (objs failed_store 5))))
   \<and> run_query Get_end_video 5 failed_store = Inr (Video (the (end' (objs failed_store 5))))
   \<and> run_query Show 5 failed_store = Inr (Shown (the (end' (objs failed_store 5))))
   \<and> run_query Preview 5 failed_store = Inr (Previewed (the (end' (objs failed_store 5))))"
proof -
  from compose_music_store(2) obtain c
    where c: "end' (objs failed_store 5) = Some c" "composite_audio c = None" by blast
  have before: "run_query q 5 music_store = Inl RuntimeError" for q
    by (rule query_unbound) (rule music_store_eval)
  have after: "run_query q 5 failed_store =
      Inr (case q of Render \<Rightarrow> Written c | Get_end_video \<Rightarrow> Video c
           | Show \<Rightarrow> Shown c | Preview \<Rightarrow> Previewed c)" for q
    by (rule query_bound) (rule c)
  have ready: "ensure_ready 5 failed_store = Inr True"
    by (simp add: ensure_ready_def c)
  show ?thesis
    by (simp add: before after ready compose_music_store(1) c)
qed

theorem Sound_finish_lifetime_witness:
  "cls (objs sound_store 0) = Sound
   \<and> lists sound_store (children (objs sound_store 0)) = [2]
   \<and> finish 3 sound_store 2 = Inr 13
   \<and> finish 3 sound_store 0 = Inr 2
   \<and> lifetime 3 sound_store 0 = Inr 2"
proof -
  have c: "cls (objs sound_store 0) = Sound"
    by (simp add: sound_store_def example_defs)
  have e: "lists sound_store (children (objs sound_store 0)) = [2]"
    "begin' (objs sound_store 0) = 0" "audio_duration (sound_clip (objs sound_store 0)) = 2"
    by (simp_all add: sound_store_def example_defs)
  have k: "finish 3 sound_store 2 = Inr 13"
    by (simp add: sound_store_def example_defs finish_defs)
  from Sound_finish_lifetime [OF c, of 2 3] e k c show ?thesis by simp
qed

end
